theory Spec2Isabelle
  imports Complex_Main "HOL-Library.Multiset" "HOL-Library.List_Lexorder" "HOL-Library.Char_ord"
begin

section \<open>Numbers: numpy floats\<close>

text \<open>
  The arrays of \<^verbatim>\<open>ConsensusAnalysis.py\<close> hold IEEE 754 floats. A float is modelled as
  a real number or one of the three special values. Finite arithmetic is exact (rounding
  and overflow are not modelled, and zero has no sign: a division of a non-zero number
  by zero gives the infinity of the numerator's sign). The special values follow IEEE 754
  as numpy applies it: numpy never raises on a float operation, it returns \<open>inf\<close> or
  \<open>nan\<close> (and prints a warning).
\<close>

datatype fl = Fin real | PInf | NInf | NaN

fun fneg :: "fl \<Rightarrow> fl" where
  "fneg (Fin a) = Fin (- a)"
| "fneg PInf = NInf"
| "fneg NInf = PInf"
| "fneg NaN = NaN"

fun fadd :: "fl \<Rightarrow> fl \<Rightarrow> fl" where
  "fadd (Fin a) (Fin b) = Fin (a + b)"
| "fadd NaN _ = NaN"
| "fadd _ NaN = NaN"
| "fadd PInf NInf = NaN"
| "fadd NInf PInf = NaN"
| "fadd PInf _ = PInf"
| "fadd _ PInf = PInf"
| "fadd NInf _ = NInf"
| "fadd _ NInf = NInf"

definition fsub :: "fl \<Rightarrow> fl \<Rightarrow> fl" where
  "fsub x y = fadd x (fneg y)"

text \<open>The sign of a float that is not \<open>nan\<close>: \<open>True\<close> for a negative one.\<close>

fun fnegative :: "fl \<Rightarrow> bool" where
  "fnegative (Fin a) = (a < 0)"
| "fnegative NInf = True"
| "fnegative _ = False"

fun fmul :: "fl \<Rightarrow> fl \<Rightarrow> fl" where
  "fmul (Fin a) (Fin b) = Fin (a * b)"
| "fmul NaN _ = NaN"
| "fmul _ NaN = NaN"
| "fmul x y =
     (if x = Fin 0 \<or> y = Fin 0 then NaN
      else if fnegative x = fnegative y then PInf else NInf)"

fun fdiv :: "fl \<Rightarrow> fl \<Rightarrow> fl" where
  "fdiv NaN _ = NaN"
| "fdiv _ NaN = NaN"
| "fdiv (Fin a) (Fin b) =
     (if b = 0 then (if a = 0 then NaN else if a < 0 then NInf else PInf)
      else Fin (a / b))"
| "fdiv (Fin a) _ = Fin 0"
| "fdiv x (Fin b) = (if fnegative x = (b < 0) then PInf else NInf)"
| "fdiv _ _ = NaN"

fun fsqrt :: "fl \<Rightarrow> fl" where
  "fsqrt (Fin a) = (if a < 0 then NaN else Fin (sqrt a))"
| "fsqrt PInf = PInf"
| "fsqrt NInf = NaN"
| "fsqrt NaN = NaN"

text \<open>Comparison \<open>x <= y\<close>: false as soon as one side is \<open>nan\<close>.\<close>

fun fle :: "fl \<Rightarrow> fl \<Rightarrow> bool" where
  "fle NaN _ = False"
| "fle _ NaN = False"
| "fle (Fin a) (Fin b) = (a \<le> b)"
| "fle NInf _ = True"
| "fle _ PInf = True"
| "fle _ _ = False"

definition isfinite :: "fl \<Rightarrow> bool" where
  "isfinite x = (case x of Fin _ \<Rightarrow> True | _ \<Rightarrow> False)"

text \<open>\<^verbatim>\<open>numpy.clip(x, lo, hi)\<close> on one entry: \<open>minimum(maximum(x, lo), hi)\<close>, \<open>nan\<close> kept.\<close>

definition fclip :: "real \<Rightarrow> real \<Rightarrow> fl \<Rightarrow> fl" where
  "fclip lo hi x =
     (case x of
        Fin a \<Rightarrow> Fin (min (max a lo) hi)
      | PInf \<Rightarrow> Fin hi
      | NInf \<Rightarrow> Fin lo
      | NaN \<Rightarrow> NaN)"

section \<open>Arrays and the numpy operations of \<^verbatim>\<open>run_ttests\<close>\<close>

text \<open>
  A one-dimensional array is a list; a two-dimensional array is the list of its rows.
  The feature matrix \<^verbatim>\<open>data\<close> has one row per team and one column per voxel.
\<close>

type_synonym vec = "fl list"
type_synonym matrix = "fl list list"

definition is_matrix :: "nat \<Rightarrow> nat \<Rightarrow> 'a list list \<Rightarrow> bool" where
  "is_matrix n v M = (length M = n \<and> list_all (\<lambda>r. length r = v) M)"

text \<open>\<^verbatim>\<open>data.shape[1]\<close>, for a matrix with at least one row.\<close>

definition ncols :: "'a list list \<Rightarrow> nat" where
  "ncols M = (case M of [] \<Rightarrow> 0 | r # _ \<Rightarrow> length r)"

text \<open>\<^verbatim>\<open>data[:, i]\<close>.\<close>

definition column :: "matrix \<Rightarrow> nat \<Rightarrow> vec" where
  "column M i = map (\<lambda>r. r ! i) M"

definition np_sum :: "vec \<Rightarrow> fl" where
  "np_sum xs = foldr fadd xs (Fin 0)"

text \<open>\<^verbatim>\<open>numpy.mean\<close> of a one-dimensional array; the mean of no element is \<open>nan\<close>.\<close>

definition np_mean :: "vec \<Rightarrow> fl" where
  "np_mean xs = fdiv (np_sum xs) (Fin (real (length xs)))"

text \<open>\<^verbatim>\<open>numpy.mean(data)\<close> with no axis: the mean of all entries.\<close>

definition np_mean_all :: "matrix \<Rightarrow> fl" where
  "np_mean_all M = np_mean (concat M)"

text \<open>
  \<^verbatim>\<open>numpy.var\<close> of a one-dimensional array, with numpy's default \<open>ddof = 0\<close>: the mean of
  the squared deviations from the mean.
\<close>

definition np_var :: "vec \<Rightarrow> fl" where
  "np_var xs =
     (let m = np_mean xs
      in fdiv (np_sum (map (\<lambda>x. fmul (fsub x m) (fsub x m)) xs)) (Fin (real (length xs))))"

text \<open>
  \<^verbatim>\<open>numpy.var(data, 1)\<close>: the variance along axis 1, that is within each row (along the
  voxels of one team); the result has one entry per row.
\<close>

definition np_var_axis1 :: "matrix \<Rightarrow> vec" where
  "np_var_axis1 M = map np_var M"

text \<open>Lines 52 and 53 of \<^verbatim>\<open>run_ttests\<close>.\<close>

definition img_mean :: "matrix \<Rightarrow> fl" where
  "img_mean data = np_mean_all data"

definition img_var :: "matrix \<Rightarrow> fl" where
  "img_var data = np_mean (np_var_axis1 data)"

text \<open>The inner product of two one-dimensional arrays, and the matrix products.\<close>

definition np_dot :: "vec \<Rightarrow> vec \<Rightarrow> fl" where
  "np_dot xs ys = np_sum (map2 fmul xs ys)"

definition np_dot_mm :: "matrix \<Rightarrow> matrix \<Rightarrow> matrix" where
  "np_dot_mm A B = map (\<lambda>r. map (\<lambda>j. np_dot r (column B j)) [0..<ncols B]) A"

text \<open>\<^verbatim>\<open>Y.dot(R)\<close> for a one-dimensional \<open>Y\<close>: the row vector times the matrix.\<close>

definition np_dot_vm :: "vec \<Rightarrow> matrix \<Rightarrow> vec" where
  "np_dot_vm y B = map (\<lambda>j. np_dot y (column B j)) [0..<ncols B]"

definition np_trace :: "matrix \<Rightarrow> fl" where
  "np_trace A = np_sum (map (\<lambda>i. (A ! i) ! i) [0..<min (length A) (ncols A)])"

definition np_eye :: "nat \<Rightarrow> matrix" where
  "np_eye n = map (\<lambda>i. map (\<lambda>j. if i = j then Fin 1 else Fin 0) [0..<n]) [0..<n]"

definition np_ones :: "nat \<Rightarrow> nat \<Rightarrow> matrix" where
  "np_ones r c = replicate r (replicate c (Fin 1))"

text \<open>
  \<^verbatim>\<open>dot(X, X.T)\<close>: the entry at \<open>(i, j)\<close> is the inner product of the rows \<open>i\<close> of \<open>A\<close>
  and \<open>j\<close> of \<open>B\<close>.
\<close>

definition np_dot_mt :: "matrix \<Rightarrow> matrix \<Rightarrow> matrix" where
  "np_dot_mt A B = map (\<lambda>r. map (np_dot r) B) A"

text \<open>
  \<^verbatim>\<open>numpy.cov\<close> with its defaults (rows are variables, \<open>ddof = 1\<close>), before the final
  \<open>squeeze\<close>: the rows are centred, multiplied with their transpose, and the product is
  scaled by \<open>1 / fact\<close> where \<open>fact\<close> is the number of columns minus one, or zero when
  that is not positive.
\<close>

definition np_cov :: "matrix \<Rightarrow> matrix" where
  "np_cov M =
     (let X = map (\<lambda>r. map (\<lambda>x. fsub x (np_mean r)) r) M;
          fact = real (ncols M - 1);
          c = np_dot_mt X X
      in map (map (\<lambda>x. fmul x (fdiv (Fin 1) (Fin fact)))) c)"

text \<open>
  \<^verbatim>\<open>numpy.corrcoef(data)\<close>. With one row the covariance is squeezed to a scalar \<open>c\<close> and
  \<open>corrcoef\<close> returns the scalar \<open>c / c\<close>; otherwise the covariance is divided by the
  standard deviations of its row and of its column and clipped to \<open>[-1, 1]\<close>.
\<close>

datatype ndarray = Scalar fl | Array2 matrix

definition np_corrcoef :: "matrix \<Rightarrow> ndarray" where
  "np_corrcoef M =
     (let c = np_cov M
      in if length M = 1 then Scalar (fdiv (c ! 0 ! 0) (c ! 0 ! 0))
         else
           let stddev = map (\<lambda>i. fsqrt (c ! i ! i)) [0..<length c]
           in Array2 (map (\<lambda>i. map (\<lambda>j. fclip (-1) 1
                  (fdiv (fdiv (c ! i ! j) (stddev ! i)) (stddev ! j))) [0..<length c])
                [0..<length c]))"

section \<open>The heterogeneity estimate\<close>

text \<open>
  The nested function \<^verbatim>\<open>tau(data, Q)\<close> of \<^verbatim>\<open>run_ttests\<close> (lines 83 to 91):
  \<open>R = eye(n) - ones((n,1)).dot(ones((1,n)))/n\<close>, \<open>sampvar_est = trace(R.dot(Q))\<close>, and for
  every column \<open>Y\<close> of the data \<open>tau2 = (1/sampvar_est) * Y.T.dot(R).dot(Y)\<close>; the result
  is \<open>sqrt(tau2)\<close>.

  The arithmetic is exact here, and \<open>1/n\<close> is not a double unless \<open>n\<close> is a power of two.
  Values of the model are those of the code where every intermediate value is a double,
  as for two or four teams with small integer values; elsewhere the code's normaliser
  and quadratic form carry rounding errors. For three identical teams the exact
  normaliser is 0, while the doubles leave a tiny positive number and a finite \<open>tau\<close>.
  Statements about an exact zero are therefore made at inputs of the first kind only.
\<close>

definition tau_R :: "nat \<Rightarrow> matrix" where
  "tau_R n =
     (let J = np_dot_mm (np_ones n 1) (np_ones 1 n)
      in map2 (map2 (\<lambda>e o1. fsub e (fdiv o1 (Fin (real n))))) (np_eye n) J)"

definition sampvar_est :: "nat \<Rightarrow> matrix \<Rightarrow> fl" where
  "sampvar_est n Q = np_trace (np_dot_mm (tau_R n) Q)"

definition tau2 :: "matrix \<Rightarrow> matrix \<Rightarrow> vec" where
  "tau2 data Q =
     (let n = length data;
          R = tau_R n;
          s = sampvar_est n Q
      in map (\<lambda>i. let Y = column data i
                   in fmul (fdiv (Fin 1) s) (np_dot (np_dot_vm Y R) Y))
           [0..<ncols data])"

definition tau :: "matrix \<Rightarrow> matrix \<Rightarrow> vec" where
  "tau data Q = map fsqrt (tau2 data Q)"

section \<open>Errors\<close>

text \<open>
  The failures a run can end with: the three kinds of the specification's error
  taxonomy, numpy's \<^verbatim>\<open>ValueError\<close>, and a failure of the file system. Every exception of
  the source is a value of this type; \<^verbatim>\<open>run_ttests\<close> catches none.
\<close>

datatype error = ShapeMismatch | DegenerateInput | NumericInstability | ValueError | IOError

section \<open>The masker\<close>

text \<open>
  Modelled from the spec: the masker, \<^verbatim>\<open>nilearn.input_data.NiftiMasker\<close>, a library that
  is not among the sources. The specification (section 4.1) gives its contract: a volume
  is a grid of voxels with a shape and an affine; \<open>forward\<close> samples the voxels where the
  mask is true, in the row-major order of the grid, one row per image, and fails with
  \<open>ShapeMismatch\<close> when the grid or affine of an image differs from the mask's;
  \<open>inverse\<close> scatters a vector back into a grid of the mask's shape and affine, with 0
  outside the mask. The cells of a grid are kept in row-major order.
\<close>

record 'a grid =
  shape :: "nat \<times> nat \<times> nat"
  affine :: "real list"
  cells :: "'a list"

type_synonym volume = "fl grid"
type_synonym spatial_mask = "bool grid"

definition mask_apply :: "bool list \<Rightarrow> 'a list \<Rightarrow> 'a list" where
  "mask_apply bs xs = map snd (filter fst (zip bs xs))"

definition forward_one :: "spatial_mask \<Rightarrow> volume \<Rightarrow> error + vec" where
  "forward_one m img =
     (if shape img = shape m \<and> affine img = affine m \<and> length (cells img) = length (cells m)
      then Inr (mask_apply (cells m) (cells img))
      else Inl ShapeMismatch)"

fun forward :: "spatial_mask \<Rightarrow> volume list \<Rightarrow> error + matrix" where
  "forward m [] = Inr []"
| "forward m (img # imgs) =
     (case forward_one m img of
        Inl e \<Rightarrow> Inl e
      | Inr row \<Rightarrow> (case forward m imgs of Inl e \<Rightarrow> Inl e | Inr rows \<Rightarrow> Inr (row # rows)))"

text \<open>
  Scattering consumes the vector in order; a vector that is too short (outside the
  contract) leaves the background value in the remaining voxels.
\<close>

fun scatter :: "bool list \<Rightarrow> fl list \<Rightarrow> fl list" where
  "scatter [] xs = []"
| "scatter (False # bs) xs = Fin 0 # scatter bs xs"
| "scatter (True # bs) (x # xs) = x # scatter bs xs"
| "scatter (True # bs) [] = Fin 0 # scatter bs []"

definition inverse_transform :: "spatial_mask \<Rightarrow> vec \<Rightarrow> volume" where
  "inverse_transform m x = \<lparr>shape = shape m, affine = affine m, cells = scatter (cells m) x\<rparr>"

text \<open>The number \<open>v\<close> of voxels inside the mask.\<close>

definition n_voxels :: "spatial_mask \<Rightarrow> nat" where
  "n_voxels m = length (filter id (cells m))"

section \<open>Files and paths\<close>

text \<open>
  The file system as \<^verbatim>\<open>run_ttests\<close> uses it: a path holds a file (an image), a directory,
  or nothing. \<^verbatim>\<open>os.path.exists\<close> is true for a file and for a directory;
  \<^verbatim>\<open>img.to_filename(path)\<close> replaces the file at the path and fails where the path is a
  directory.
\<close>

datatype entry = File volume | Dir

type_synonym fs = "string \<Rightarrow> entry option"

definition path_exists :: "fs \<Rightarrow> string \<Rightarrow> bool" where
  "path_exists f p = (f p \<noteq> None)"

definition to_filename :: "fs \<Rightarrow> string \<Rightarrow> volume \<Rightarrow> error + fs" where
  "to_filename f p v = (if f p = Some Dir then Inl IOError else Inr (f(p \<mapsto> File v)))"

text \<open>\<^verbatim>\<open>os.path.join(a, b)\<close> for a relative \<open>b\<close>.\<close>

definition path_join :: "string \<Rightarrow> string \<Rightarrow> string" where
  "path_join a b = (if a = [] \<or> last a = CHR ''/'' then a @ b else a @ ''/'' @ b)"

text \<open>\<^verbatim>\<open>'%d' % n\<close> for a natural number.\<close>

fun show_nat :: "nat \<Rightarrow> string" where
  "show_nat n =
     (if n < 10 then [''0123456789'' ! n]
      else show_nat (n div 10) @ [''0123456789'' ! (n mod 10)])"

declare show_nat.simps [simp del]

text \<open>
  \<^verbatim>\<open>os.path.join(results_dir, 'hypo%d_KIND.nii.gz' % hyp)\<close>, where \<open>KIND\<close> is \<open>t\<close>,
  \<open>1-p\<close>, \<open>1-fdr\<close> or \<open>tau\<close>.
\<close>

definition result_path :: "string \<Rightarrow> nat \<Rightarrow> string \<Rightarrow> string" where
  "result_path results_dir hyp kind =
     path_join results_dir (''hypo'' @ show_nat hyp @ ''_'' @ kind @ ''.nii.gz'')"

section \<open>The consensus analysis: \<^verbatim>\<open>run_ttests\<close>\<close>

text \<open>
  What \<^verbatim>\<open>run_ttests\<close> takes from its surroundings:
  \<^item> \<open>MNI_mask\<close> and \<open>results_dir\<close>: \<^verbatim>\<open>narps.dirs.MNI_mask\<close> and
    \<^verbatim>\<open>narps.dirs.dirs['consensus']\<close> (the directory exists: lines 35 and 36 create it);
  \<^item> \<open>glob_maps hyp\<close>: the list \<^verbatim>\<open>glob.glob\<close> returns for the pattern
    \<^verbatim>\<open>zstat/*/hypo%d_unthresh.nii.gz\<close> of the hypothesis, in the order the file system
    enumerates it, and \<open>images\<close>, the image behind each of these paths. No file the run
    writes matches the pattern, so the run does not change either;
  \<^item> \<open>t_corr\<close>: the correlated t-test of the repository's \<^verbatim>\<open>utils\<close> module, which is not
    among the sources; it returns the t and p arrays or fails. The arrays have a single
    row (line 72 reads \<^verbatim>\<open>pvals[0, :]\<close>) and are kept as vectors;
  \<^item> \<open>multipletests\<close>: \<^verbatim>\<open>statsmodels.stats.multitest.multipletests(pvals, 0.05, 'fdr_tsbh')\<close>,
    a library function; it returns the rejection vector and the adjusted p-values.
  Logging and printing are left out, but not the exception that computing a log
  message can raise.
\<close>

record env =
  MNI_mask :: spatial_mask
  results_dir :: string
  glob_maps :: "nat \<Rightarrow> string list"
  images :: "string \<Rightarrow> volume option"
  t_corr :: "matrix \<Rightarrow> fl \<Rightarrow> fl \<Rightarrow> matrix \<Rightarrow> error + (vec \<times> vec)"
  multipletests :: "vec \<Rightarrow> bool list \<times> vec"

fun load_all :: "(string \<Rightarrow> volume option) \<Rightarrow> string list \<Rightarrow> error + volume list" where
  "load_all imgs [] = Inr []"
| "load_all imgs (p # ps) =
     (case imgs p of
        None \<Rightarrow> Inl IOError
      | Some v \<Rightarrow> (case load_all imgs ps of Inl e \<Rightarrow> Inl e | Inr vs \<Rightarrow> Inr (v # vs)))"

text \<open>\<^verbatim>\<open>masker.fit_transform(maps)\<close>: the images are read and masked, one row per path.\<close>

definition fit_transform :: "env \<Rightarrow> string list \<Rightarrow> error + matrix" where
  "fit_transform e maps =
     (case load_all (images e) maps of
        Inl err \<Rightarrow> Inl err
      | Inr vols \<Rightarrow> forward (MNI_mask e) vols)"

text \<open>
  One \<^verbatim>\<open>masker.inverse_transform(x).to_filename(path)\<close> in a sequence of statements: after
  an exception nothing more is executed, and what was written stays.
\<close>

fun save :: "string \<Rightarrow> volume \<Rightarrow> fs \<times> error option \<Rightarrow> fs \<times> error option" where
  "save p v (f, Some err) = (f, Some err)"
| "save p v (f, None) =
     (case to_filename f p v of Inl err \<Rightarrow> (f, Some err) | Inr f' \<Rightarrow> (f', None))"

text \<open>\<^verbatim>\<open>1 - pvals\<close>.\<close>

definition one_minus :: "vec \<Rightarrow> vec" where
  "one_minus xs = map (\<lambda>x. fsub (Fin 1) x) xs"

text \<open>
  Lines 68 to 97: the t image, the \<open>1 - p\<close> image, the FDR correction and the
  \<open>1 - fdr\<close> image, then \<open>tau\<close> and its image, each written as soon as it is computed.
\<close>

definition write_results ::
  "env \<Rightarrow> nat \<Rightarrow> matrix \<Rightarrow> matrix \<Rightarrow> vec \<Rightarrow> vec \<Rightarrow> fs \<Rightarrow> fs \<times> error option" where
  "write_results e hyp data cc tvals pvals f =
     (let m = MNI_mask e; d = results_dir e;
          s1 = save (result_path d hyp ''t'') (inverse_transform m tvals) (f, None);
          s2 = save (result_path d hyp ''1-p'') (inverse_transform m (one_minus pvals)) s1;
          fdr_results = multipletests e pvals;
          s3 = save (result_path d hyp ''1-fdr'')
                 (inverse_transform m (one_minus (snd fdr_results))) s2;
          tau_est = tau data cc
      in save (result_path d hyp ''tau'') (inverse_transform m tau_est) s3)"

text \<open>
  Lines 51 to 97, for the feature matrix \<open>data\<close>. The log message of line 59 indexes
  \<open>cc\<close> with \<^verbatim>\<open>numpy.triu_indices_from(cc, 1)\<close>, which raises \<^verbatim>\<open>ValueError\<close> for an array
  that is not two-dimensional.
\<close>

definition consensus :: "env \<Rightarrow> nat \<Rightarrow> matrix \<Rightarrow> fs \<Rightarrow> fs \<times> error option" where
  "consensus e hyp data f =
     (let mean = img_mean data; var = img_var data
      in case np_corrcoef data of
           Scalar c \<Rightarrow> (f, Some ValueError)
         | Array2 cc \<Rightarrow>
             (case t_corr e data mean var cc of
                Inl err \<Rightarrow> (f, Some err)
              | Inr (tvals, pvals) \<Rightarrow> write_results e hyp data cc tvals pvals f))"

text \<open>
  The body of the loop over the hypotheses (lines 39 to 97): the result is the file
  system afterwards and the exception, if one was raised.
\<close>

definition run_hyp :: "env \<Rightarrow> bool \<Rightarrow> nat \<Rightarrow> fs \<Rightarrow> fs \<times> error option" where
  "run_hyp e overwrite hyp f =
     (if \<not> overwrite \<and> path_exists f (result_path (results_dir e) hyp ''1-fdr'')
      then (f, None)
      else
        let maps = sort (glob_maps e hyp)
        in case fit_transform e maps of
             Inl err \<Rightarrow> (f, Some err)
           | Inr data \<Rightarrow> consensus e hyp data f)"

text \<open>The loop of line 38 over \<^verbatim>\<open>hypnums\<close>; an exception ends it.\<close>

fun run_ttests :: "env \<Rightarrow> bool \<Rightarrow> nat list \<Rightarrow> fs \<Rightarrow> fs \<times> error option" where
  "run_ttests e overwrite [] f = (f, None)"
| "run_ttests e overwrite (hyp # hyps) f =
     (case run_hyp e overwrite hyp f of
        (f', Some err) \<Rightarrow> (f', Some err)
      | (f', None) \<Rightarrow> run_ttests e overwrite hyps f')"

section \<open>The correlated t-test\<close>

text \<open>
  Modelled from the spec: the correlated t-test \<^verbatim>\<open>t_corr\<close> of the repository's \<^verbatim>\<open>utils\<close>
  module, which is not among the sources. The specification (section 4.2) gives it: it
  fails with \<open>DegenerateInput\<close> if there are fewer than two teams or the variance is zero
  or \<open>nan\<close>; the adjusted standard error is \<open>sqrt(variance * sum(Q) / n^2)\<close>, the statistic
  of a voxel is its mean over the teams divided by that standard error, and the p-value
  is the two-sided one of the t distribution with \<open>n - 1\<close> degrees of freedom. That
  distribution is a library function and a parameter here.
\<close>

definition t_corr_spec ::
  "(nat \<Rightarrow> fl \<Rightarrow> fl) \<Rightarrow> matrix \<Rightarrow> fl \<Rightarrow> fl \<Rightarrow> matrix \<Rightarrow> error + (vec \<times> vec)" where
  "t_corr_spec two_sided_p M res_mean res_var Q =
     (let n = length M
      in if n < 2 \<or> res_var = Fin 0 \<or> res_var = NaN then Inl DegenerateInput
         else
           let se = fsqrt (fdiv (fmul res_var (np_sum (concat Q))) (Fin ((real n)\<^sup>2)));
               tvals = map (\<lambda>j. fdiv (np_mean (column M j)) se) [0..<ncols M];
               pvals = map (two_sided_p (n - 1)) tvals
           in Inr (tvals, pvals))"

section \<open>The FDR correction\<close>

text \<open>
  Modelled from the spec: the significance corrector, \<^verbatim>\<open>multipletests(pvals, alpha,
  'fdr_tsbh')\<close> of the statsmodels library, which is not among the sources. The
  specification (section 4.3) names the procedure, the two-stage Benjamini-Hochberg
  correction over all voxels; the definitions follow the library's algorithm, for real
  p-values, and give the rejection vector:
  \<^item> \<open>fdrcorrection\<close> works on the sorted p-values: the \<open>i\<close>-th smallest is below its
    threshold if it is at most \<open>(i / m) * alpha\<close>, and everything up to the last one that
    is below its threshold is rejected;
  \<^item> \<open>fdrcorrection_twostage\<close> runs it at \<open>alpha\<close>; if that rejects nothing or everything
    this is the result, else it runs it again at \<open>alpha * m / (m - r1)\<close>, where \<open>r1\<close> is the
    number of rejections of the first stage;
  \<^item> \<open>fdr_tsbh_reject\<close> sorts the p-values, corrects them and puts the rejections back at
    the places the p-values came from.
\<close>

definition ecdf_factor :: "nat \<Rightarrow> nat \<Rightarrow> real" where
  "ecdf_factor m i = real (i + 1) / real m"

definition bh_below :: "real \<Rightarrow> real list \<Rightarrow> nat \<Rightarrow> bool" where
  "bh_below alpha qs i = (qs ! i \<le> ecdf_factor (length qs) i * alpha)"

definition fdrcorrection :: "real \<Rightarrow> real list \<Rightarrow> bool list" where
  "fdrcorrection alpha qs =
     (let m = length qs;
          hits = filter (bh_below alpha qs) [0..<m]
      in if hits = [] then replicate m False
         else map (\<lambda>i. i < Max (set hits) \<or> bh_below alpha qs i) [0..<m])"

text \<open>\<^verbatim>\<open>numpy.sum\<close> of a boolean array: the number of its true entries.\<close>

definition count_true :: "bool list \<Rightarrow> nat" where
  "count_true bs = length (filter id bs)"

definition fdrcorrection_twostage :: "real \<Rightarrow> real list \<Rightarrow> bool list" where
  "fdrcorrection_twostage alpha qs =
     (let ntests = length qs;
          rej = fdrcorrection alpha qs;
          r1 = count_true rej
      in if r1 = 0 \<or> r1 = ntests then rej
         else
           let ntests0 = real ntests - real r1;
               alpha_star = alpha * real ntests / ntests0
           in fdrcorrection alpha_star qs)"

definition argsort :: "real list \<Rightarrow> nat list" where
  "argsort ps = sort_key (\<lambda>i. ps ! i) [0..<length ps]"

text \<open>\<^verbatim>\<open>acc[idx] = vals\<close>.\<close>

definition put_at :: "nat list \<Rightarrow> 'a list \<Rightarrow> 'a list \<Rightarrow> 'a list" where
  "put_at idx vals acc = foldl (\<lambda>a (i, b). a[i := b]) acc (zip idx vals)"

definition fdr_tsbh_reject :: "real \<Rightarrow> real list \<Rightarrow> bool list" where
  "fdr_tsbh_reject alpha pvals =
     (let sortind = argsort pvals;
          sorted_pvals = map (\<lambda>i. pvals ! i) sortind;
          reject = fdrcorrection_twostage alpha sorted_pvals
      in put_at sortind reject (replicate (length pvals) False))"

text \<open>The rejection count that line 76 logs: \<^verbatim>\<open>numpy.sum(fdr_results[0])\<close>.\<close>

definition n_rejected :: "real \<Rightarrow> real list \<Rightarrow> nat" where
  "n_rejected alpha pvals = count_true (fdr_tsbh_reject alpha pvals)"

section \<open>Notions the properties are stated with\<close>

text \<open>
  The variance estimate as the specification words it: for every voxel (column) the
  variance of the team values at that voxel, then the mean over the voxels. The divisor
  of the per-voxel variance is the number of teams minus \<open>ddof\<close> (\<open>ddof = 1\<close> is the
  sample variance, \<open>ddof = 0\<close> numpy's default).
\<close>

definition var_ddof :: "nat \<Rightarrow> vec \<Rightarrow> fl" where
  "var_ddof ddof xs =
     (let m = np_mean xs
      in fdiv (np_sum (map (\<lambda>x. fmul (fsub x m) (fsub x m)) xs))
           (Fin (real (length xs - ddof))))"

definition voxelwise_variance :: "nat \<Rightarrow> matrix \<Rightarrow> fl" where
  "voxelwise_variance ddof M = np_mean (map (\<lambda>j. var_ddof ddof (column M j)) [0..<ncols M])"

text \<open>
  The population variance of one team's voxel values, over the reals: the mean squared
  deviation from the team's mean, with divisor the number of voxels.
\<close>

definition team_variance :: "real list \<Rightarrow> real" where
  "team_variance xs =
     (\<Sum>j<length xs. (xs ! j - (\<Sum>k<length xs. xs ! k) / real (length xs))\<^sup>2)
       / real (length xs)"

text \<open>The entries of the centring matrix \<open>I - J/n\<close>, over the reals.\<close>

definition centring :: "nat \<Rightarrow> nat \<Rightarrow> nat \<Rightarrow> real" where
  "centring n i j = (if i = j then 1 else 0) - 1 / real n"

text \<open>
  The sum of the squared deviations of the team values at voxel \<open>i\<close> from their mean
  over the teams.
\<close>

definition team_spread :: "real list list \<Rightarrow> nat \<Rightarrow> real" where
  "team_spread A i =
     (\<Sum>j<length A. (A ! j ! i - (\<Sum>k<length A. A ! k ! i) / real (length A))\<^sup>2)"

text \<open>
  ``Approximately zero'', with the tolerance \<open>1e-6\<close> of the specification; \<open>nan\<close> and the
  infinities are not close to anything (\<open>abs(nan) <= tol\<close> is false).
\<close>

definition approx_zero :: "fl \<Rightarrow> bool" where
  "approx_zero x = (case x of Fin a \<Rightarrow> \<bar>a\<bar> \<le> 1 / 10 ^ 6 | _ \<Rightarrow> False)"


text \<open>The quadratic form \<^verbatim>\<open>Y.T.dot(R).dot(Y)\<close> of the voxel \<open>i\<close>.\<close>

definition quadratic_form :: "matrix \<Rightarrow> nat \<Rightarrow> fl" where
  "quadratic_form data i =
     np_dot (np_dot_vm (column data i) (tau_R (length data))) (column data i)"


text \<open>The example matrices: four and two identical teams, and two opposed teams.\<close>

definition identical_teams :: matrix where
  "identical_teams = replicate 4 [Fin 1, Fin 2, Fin 3]"

definition two_identical_teams :: matrix where
  "two_identical_teams = [[Fin 1, Fin 2, Fin 3], [Fin 1, Fin 2, Fin 3]]"



text \<open>The rejection counts of the two stages of the FDR correction, on sorted p-values.\<close>

definition bh_count :: "real \<Rightarrow> real list \<Rightarrow> nat" where
  "bh_count alpha qs = count_true (fdrcorrection alpha qs)"

definition twostage_count :: "real \<Rightarrow> real list \<Rightarrow> nat" where
  "twostage_count alpha qs = count_true (fdrcorrection_twostage alpha qs)"

text \<open>The four output files of a hypothesis, in the order they are written.\<close>

definition out_paths :: "env \<Rightarrow> nat \<Rightarrow> string list" where
  "out_paths e hyp = map (result_path (results_dir e) hyp) [''t'', ''1-p'', ''1-fdr'', ''tau'']"

text \<open>
  The four images of a hypothesis with their paths, in the order they are written; the
  file system after some of them have been written; and the number of output paths,
  from the first on, that are not taken by a directory.
\<close>

definition outputs ::
  "env \<Rightarrow> nat \<Rightarrow> matrix \<Rightarrow> matrix \<Rightarrow> vec \<Rightarrow> vec \<Rightarrow> (string \<times> volume) list" where
  "outputs e hyp data cc tvals pvals =
     [(result_path (results_dir e) hyp ''t'', inverse_transform (MNI_mask e) tvals),
      (result_path (results_dir e) hyp ''1-p'', inverse_transform (MNI_mask e) (one_minus pvals)),
      (result_path (results_dir e) hyp ''1-fdr'',
         inverse_transform (MNI_mask e) (one_minus (snd (multipletests e pvals)))),
      (result_path (results_dir e) hyp ''tau'', inverse_transform (MNI_mask e) (tau data cc))]"

definition put_all :: "fs \<Rightarrow> (string \<times> volume) list \<Rightarrow> fs" where
  "put_all f pvs = foldl (\<lambda>g (p, v). g(p \<mapsto> File v)) f pvs"

definition n_writable :: "fs \<Rightarrow> string list \<Rightarrow> nat" where
  "n_writable f ps = length (takeWhile (\<lambda>p. f p \<noteq> Some Dir) ps)"

definition is_file :: "fs \<Rightarrow> string \<Rightarrow> bool" where
  "is_file f p = (case f p of Some (File v) \<Rightarrow> True | _ \<Rightarrow> False)"

text \<open>
  \<open>wrote_prefix ps k f f'\<close>: from \<open>f\<close> to \<open>f'\<close> the first \<open>k\<close> of the paths \<open>ps\<close> were
  written, and no other path changed.
\<close>

definition wrote_prefix :: "string list \<Rightarrow> nat \<Rightarrow> fs \<Rightarrow> fs \<Rightarrow> bool" where
  "wrote_prefix ps k f f' =
     (list_all (is_file f') (take k ps) \<and> (\<forall>p. p \<notin> set (take k ps) \<longrightarrow> f' p = f p))"

text \<open>A sequence of \<open>save\<close> statements.\<close>

fun save_all :: "(string \<times> volume) list \<Rightarrow> fs \<times> error option \<Rightarrow> fs \<times> error option" where
  "save_all [] s = s"
| "save_all ((p, v) # pvs) s = save_all pvs (save p v s)"

definition nonfinite :: "fl \<Rightarrow> bool" where
  "nonfinite x = (\<not> isfinite x)"

text \<open>
  The example runs. The mask has three voxels in a grid of four. Two teams have a map of
  hypothesis 1, and the file system lists team B before team A. The correlated t-test is
  the one modelled from the specification; the t distribution and the FDR correction of
  the examples are fixed functions standing in for the libraries (a p-value that falls
  with the size of the statistic, and the rejection of every p-value up to 0.05 with no
  adjustment): no property below depends on what they compute.
\<close>

definition demo_two_sided_p :: "nat \<Rightarrow> fl \<Rightarrow> fl" where
  "demo_two_sided_p df t = (case t of Fin a \<Rightarrow> Fin (1 / (1 + \<bar>a\<bar>)) | NaN \<Rightarrow> NaN | _ \<Rightarrow> Fin 0)"

definition demo_multipletests :: "vec \<Rightarrow> bool list \<times> vec" where
  "demo_multipletests ps = (map (\<lambda>p. fle p (Fin (1 / 20))) ps, ps)"

definition demo_mask :: spatial_mask where
  "demo_mask = \<lparr>shape = (1, 2, 2), affine = [], cells = [True, False, True, True]\<rparr>"

definition demo_volume :: "fl list \<Rightarrow> volume" where
  "demo_volume xs = \<lparr>shape = (1, 2, 2), affine = [], cells = xs\<rparr>"

definition demo_env :: "fl list \<Rightarrow> fl list \<Rightarrow> env" where
  "demo_env a b =
     \<lparr>MNI_mask = demo_mask,
      results_dir = ''out/consensus'',
      glob_maps = (\<lambda>hyp. if hyp = 1
         then [''out/zstat/teamB/hypo1_unthresh.nii.gz'', ''out/zstat/teamA/hypo1_unthresh.nii.gz'']
         else []),
      images = [''out/zstat/teamA/hypo1_unthresh.nii.gz'' \<mapsto> demo_volume a,
                ''out/zstat/teamB/hypo1_unthresh.nii.gz'' \<mapsto> demo_volume b],
      t_corr = t_corr_spec demo_two_sided_p,
      multipletests = demo_multipletests\<rparr>"

text \<open>Team A has the voxel values 1, 2, 3 and team B 2, 1, 3.\<close>

definition demo :: env where
  "demo = demo_env [Fin 1, Fin 9, Fin 2, Fin 3] [Fin 2, Fin 9, Fin 1, Fin 3]"

text \<open>Both teams have the voxel values 1, 2, 3.\<close>

definition identical_env :: env where
  "identical_env = demo_env [Fin 1, Fin 9, Fin 2, Fin 3] [Fin 1, Fin 9, Fin 2, Fin 3]"

text \<open>The same two maps, enumerated in the other order.\<close>

definition other_listing :: "nat \<Rightarrow> string list" where
  "other_listing hyp =
     (if hyp = 1
      then [''out/zstat/teamA/hypo1_unthresh.nii.gz'', ''out/zstat/teamB/hypo1_unthresh.nii.gz'']
      else [])"

text \<open>
  Two file systems: one where the path of the \<open>tau\<close> image is taken by a directory, and
  one that holds the \<open>1 - fdr\<close> image of hypothesis 1 and nothing else.
\<close>

definition blocked_tau :: fs where
  "blocked_tau = [''out/consensus/hypo1_tau.nii.gz'' \<mapsto> Dir]"

definition only_fdr :: fs where
  "only_fdr = [''out/consensus/hypo1_1-fdr.nii.gz'' \<mapsto> File (demo_volume [])]"

text \<open>Degenerate feature matrices: constant teams, a \<open>nan\<close> entry, a single team.\<close>

definition constant_teams :: matrix where
  "constant_teams = [[Fin 1, Fin 1], [Fin 1, Fin 1]]"

definition nan_teams :: matrix where
  "nan_teams = [[Fin 1, NaN], [Fin 2, Fin 3]]"

definition single_team :: matrix where
  "single_team = [[Fin 1, Fin 2, Fin 3]]"

section \<open>Properties of the numeric core\<close>

lemma fsqrt_nan_or_nonneg: "fsqrt x = NaN \<or> fle (Fin 0) (fsqrt x)"
  by (cases x) auto

lemma np_sum_Fin: "np_sum (map Fin xs) = Fin (sum_list xs)"
  by (induction xs) (simp_all add: np_sum_def)

lemma sum_list_lessThan: "sum_list xs = (\<Sum>i<length xs. xs ! i)"
  by (simp add: sum_list_sum_nth atLeast0LessThan)

lemma np_mean_Fin: "xs \<noteq> [] \<Longrightarrow> np_mean (map Fin xs) = Fin (sum_list xs / real (length xs))"
  by (simp add: np_mean_def np_sum_Fin)

lemma np_var_Fin:
  assumes "xs \<noteq> []"
  shows "np_var (map Fin xs) = Fin (team_variance xs)"
proof -
  let ?m = "sum_list xs / real (length xs)"
  have "map (\<lambda>x. fmul (fsub x (Fin ?m)) (fsub x (Fin ?m))) (map Fin xs)
      = map Fin (map (\<lambda>x. (x - ?m)\<^sup>2) xs)"
    by (simp add: fsub_def power2_eq_square)
  then have "np_var (map Fin xs) = Fin (sum_list (map (\<lambda>x. (x - ?m)\<^sup>2) xs) / real (length xs))"
    using assms by (simp add: np_var_def np_mean_Fin np_sum_Fin Let_def del: map_map)
  also have "sum_list (map (\<lambda>x. (x - ?m)\<^sup>2) xs) = (\<Sum>j<length xs. (xs ! j - ?m)\<^sup>2)"
    by (simp add: sum_list_lessThan)
  finally show ?thesis by (simp add: team_variance_def sum_list_lessThan)
qed

lemma ncols_replicate: "0 < r \<Longrightarrow> ncols (replicate r xs) = length xs"
  by (cases r) (simp_all add: ncols_def)

lemma ncols_map_upt: "0 < n \<Longrightarrow> ncols (map f [0..<n]) = length (f 0)"
  by (cases n) (simp_all add: ncols_def upt_rec)

lemma outer_ones:
  "np_dot_mm (np_ones n 1) (np_ones 1 n) = replicate n (replicate n (Fin 1))"
proof -
  have "\<And>j. j < n \<Longrightarrow> np_dot [Fin 1] (column (np_ones 1 n) j) = Fin 1"
    by (simp add: np_dot_def np_sum_def column_def np_ones_def)
  then have "map (\<lambda>j. np_dot [Fin 1] (column (np_ones 1 n) j)) [0..<n] = replicate n (Fin 1)"
    by (intro nth_equalityI) simp_all
  moreover have "ncols (np_ones 1 n) = n"
    by (simp add: np_ones_def ncols_def)
  ultimately show ?thesis
    by (simp add: np_dot_mm_def np_ones_def map_replicate_const)
qed

lemma tau_R_real:
  assumes "0 < n"
  shows "tau_R n = map (\<lambda>i. map (\<lambda>j. Fin (centring n i j)) [0..<n]) [0..<n]"
proof (rule nth_equalityI)
  show "length (tau_R n) = length (map (\<lambda>i. map (\<lambda>j. Fin (centring n i j)) [0..<n]) [0..<n])"
    unfolding tau_R_def outer_ones by (simp add: np_eye_def)
next
  fix i assume "i < length (tau_R n)"
  then have i: "i < n" unfolding tau_R_def outer_ones by (simp add: np_eye_def)
  have "map2 (\<lambda>e o1. fsub e (fdiv o1 (Fin (real n))))
          (map (\<lambda>j. if i = j then Fin 1 else Fin 0) [0..<n]) (replicate n (Fin 1))
        = map (\<lambda>j. Fin (centring n i j)) [0..<n]"
    using assms by (intro nth_equalityI) (simp_all add: fsub_def centring_def)
  with i show "tau_R n ! i = map (\<lambda>i. map (\<lambda>j. Fin (centring n i j)) [0..<n]) [0..<n] ! i"
    unfolding tau_R_def outer_ones by (simp add: np_eye_def)
qed

lemma np_dot_Fin: "np_dot (map Fin xs) (map Fin ys) = Fin (sum_list (map2 (*) xs ys))"
proof -
  have "map2 fmul (map Fin xs) (map Fin ys) = map Fin (map2 (*) xs ys)"
  proof (induction xs arbitrary: ys)
    case Nil
    show ?case by simp
  next
    case (Cons x xs)
    then show ?case by (cases ys) simp_all
  qed
  then show ?thesis unfolding np_dot_def by (simp only: np_sum_Fin)
qed

lemma sum_list_map2_nth:
  assumes "length xs = n" and "length zs = n"
  shows "sum_list (map2 (*) xs zs) = (\<Sum>i<n. xs ! i * zs ! (i::nat) :: real)"
proof -
  have "sum_list (map2 (*) xs zs) = (\<Sum>i<length (map2 (*) xs zs). map2 (*) xs zs ! i)"
    by (rule sum_list_lessThan)
  also have "\<dots> = (\<Sum>i<n. xs ! i * zs ! i)"
    using assms by (intro sum.cong) simp_all
  finally show ?thesis .
qed

lemma ncols_tau_R: "0 < n \<Longrightarrow> ncols (tau_R n) = n"
  by (simp add: tau_R_real ncols_map_upt)

lemma column_tau_R:
  assumes "j < n"
  shows "column (tau_R n) j = map Fin (map (\<lambda>i. centring n i j) [0..<n])"
proof -
  from assms have "0 < n" by simp
  then show ?thesis using assms by (simp add: tau_R_real column_def)
qed

lemma centring_row_sum:
  assumes "j < n"
  shows "(\<Sum>i<n. f i * centring n i j) = f j - (\<Sum>i<n. f i) / real n"
proof -
  have "(\<Sum>i<n. f i * centring n i j)
      = (\<Sum>i<n. (if i = j then f i else 0) - f i / real n)"
    by (intro sum.cong) (simp_all add: centring_def algebra_simps)
  also have "\<dots> = (\<Sum>i<n. if i = j then f i else 0) - (\<Sum>i<n. f i / real n)"
    by (simp add: sum_subtractf)
  also have "(\<Sum>i<n. if i = j then f i else 0) = f j"
    using assms by (simp add: sum.delta')
  also have "(\<Sum>i<n. f i / real n) = (\<Sum>i<n. f i) / real n"
    by (simp add: sum_divide_distrib)
  finally show ?thesis .
qed

lemma np_dot_vm_tau_R:
  assumes "length ys = n" and "0 < n"
  shows "np_dot_vm (map Fin ys) (tau_R n)
       = map Fin (map (\<lambda>j. ys ! j - (\<Sum>i<n. ys ! i) / real n) [0..<n])"
proof -
  have "np_dot (map Fin ys) (column (tau_R n) j) = Fin (ys ! j - (\<Sum>i<n. ys ! i) / real n)"
    if "j < n" for j
  proof -
    have "np_dot (map Fin ys) (column (tau_R n) j)
        = Fin (sum_list (map2 (*) ys (map (\<lambda>i. centring n i j) [0..<n])))"
      using that by (simp only: column_tau_R np_dot_Fin)
    also have "sum_list (map2 (*) ys (map (\<lambda>i. centring n i j) [0..<n]))
        = (\<Sum>i<n. ys ! i * centring n i j)"
      using assms(1) by (subst sum_list_map2_nth [where n = n]) simp_all
    finally show ?thesis using that by (simp add: centring_row_sum)
  qed
  then show ?thesis
    using assms(2) by (simp add: np_dot_vm_def ncols_tau_R)
qed

lemma centred_square_sum:
  assumes "0 < n"
  shows "(\<Sum>j<n. (f j - (\<Sum>i<n. f i) / real n) * f j)
       = (\<Sum>j<n. (f j - (\<Sum>i<n. f i) / real n)\<^sup>2)"
proof -
  define m where "m = (\<Sum>i<n. f i) / real n"
  have s: "(\<Sum>j<n. f j) = real n * m"
    using assms by (simp add: m_def)
  have "(\<Sum>j<n. (f j - m) * m) = (\<Sum>j<n. f j) * m - real n * (m * m)"
    by (simp add: left_diff_distrib sum_subtractf sum_distrib_right)
  also have "\<dots> = 0" by (simp add: s)
  finally have z: "(\<Sum>j<n. (f j - m) * m) = 0" .
  have "(\<Sum>j<n. (f j - m)\<^sup>2) = (\<Sum>j<n. (f j - m) * f j - (f j - m) * m)"
    by (intro sum.cong) (simp_all add: power2_eq_square algebra_simps)
  also have "\<dots> = (\<Sum>j<n. (f j - m) * f j) - (\<Sum>j<n. (f j - m) * m)"
    by (simp add: sum_subtractf)
  finally show ?thesis using z by (simp add: m_def)
qed

lemma quadratic_form_real:
  assumes "length ys = n" and "0 < n"
  shows "np_dot (np_dot_vm (map Fin ys) (tau_R n)) (map Fin ys)
       = Fin (\<Sum>j<n. (ys ! j - (\<Sum>i<n. ys ! i) / real n)\<^sup>2)"
proof -
  have "np_dot (np_dot_vm (map Fin ys) (tau_R n)) (map Fin ys)
      = Fin (sum_list (map2 (*) (map (\<lambda>j. ys ! j - (\<Sum>i<n. ys ! i) / real n) [0..<n]) ys))"
    using assms by (simp only: np_dot_vm_tau_R np_dot_Fin)
  also have "sum_list (map2 (*) (map (\<lambda>j. ys ! j - (\<Sum>i<n. ys ! i) / real n) [0..<n]) ys)
      = (\<Sum>j<n. (ys ! j - (\<Sum>i<n. ys ! i) / real n) * ys ! j)"
    using assms(1) by (subst sum_list_map2_nth [where n = n]) simp_all
  finally show ?thesis using assms(2) by (simp add: centred_square_sum)
qed

lemmas np_simps = np_corrcoef_def np_cov_def np_mean_def np_sum_def ncols_def np_dot_mm_def
     np_dot_mt_def column_def np_dot_def fsub_def fclip_def Let_def
     tau_def tau2_def tau_R_def sampvar_est_def np_trace_def np_eye_def np_ones_def np_dot_vm_def

lemma corrcoef_identical_teams: "np_corrcoef identical_teams = Array2 (np_ones 4 4)"
  by (simp add: identical_teams_def np_simps numeral_eq_Suc)

lemma sampvar_identical_teams: "sampvar_est 4 (np_ones 4 4) = Fin 0"
  by (simp add: np_simps numeral_eq_Suc)

lemma tau2_identical_teams: "tau2 identical_teams (np_ones 4 4) = [NaN, NaN, NaN]"
  by (simp add: identical_teams_def np_simps numeral_eq_Suc)

lemma column_Fin:
  assumes "list_all (\<lambda>r. length r = v) A" and "i < v"
  shows "column (map (map Fin) A) i = map Fin (map (\<lambda>r. r ! i) A)"
  using assms by (induction A) (simp_all add: column_def)

lemma ncols_Fin: "ncols (map (map Fin) A) = ncols A"
  by (cases A) (simp_all add: ncols_def)

lemma ncols_is_matrix: "is_matrix n v A \<Longrightarrow> 0 < n \<Longrightarrow> ncols A = v"
  by (cases A) (simp_all add: ncols_def is_matrix_def)

lemma team_spread_nonneg: "0 \<le> team_spread A i"
  by (simp add: team_spread_def sum_nonneg)

lemma tau2_real:
  assumes "is_matrix n v A" and "0 < n" and "sampvar_est n Q = Fin s" and "s \<noteq> 0"
  shows "tau2 (map (map Fin) A) Q = map (\<lambda>i. Fin (team_spread A i / s)) [0..<v]"
proof -
  have len: "length A = n" and rows: "list_all (\<lambda>r. length r = v) A"
    using assms(1) by (simp_all add: is_matrix_def)
  have "fmul (fdiv (Fin 1) s') (np_dot (np_dot_vm (column (map (map Fin) A) i) (tau_R n))
          (column (map (map Fin) A) i)) = Fin (team_spread A i / s)"
    if "i < v" and "s' = Fin s" for i s'
  proof -
    have "np_dot (np_dot_vm (column (map (map Fin) A) i) (tau_R n)) (column (map (map Fin) A) i)
        = Fin (team_spread A i)"
      using len assms(2) that(1)
      by (simp only: column_Fin [OF rows] quadratic_form_real [where n = n] length_map
            team_spread_def nth_map)
         (simp add: team_spread_def)
    then show ?thesis using assms(4) that(2) by simp
  qed
  then show ?thesis
    using assms(1,2,3) len
    by (simp add: tau2_def Let_def ncols_Fin ncols_is_matrix)
qed

lemma tau_real:
  assumes "is_matrix n v A" and "0 < n" and "sampvar_est n Q = Fin s" and "0 < s"
  shows "tau (map (map Fin) A) Q = map (\<lambda>i. Fin (sqrt (team_spread A i / s))) [0..<v]"
proof -
  have "fsqrt (Fin (team_spread A i / s)) = Fin (sqrt (team_spread A i / s))" for i
    using assms(4) team_spread_nonneg [of A i] by (simp add: not_less)
  then show ?thesis
    using assms by (simp add: tau_def tau2_real)
qed






lemma quadratic_form_identical_teams:
  "map (quadratic_form identical_teams) [0..<3] = [Fin 0, Fin 0, Fin 0]"
  by (simp add: quadratic_form_def identical_teams_def np_simps numeral_eq_Suc)

subsection \<open>The variance estimate\<close>

text \<open>
  Claim C1, as the code has it: the variance estimate passed to the correlated t-test is
  the mean over the teams of the population variance (divisor: the number of voxels) of
  each team's voxel values. The variance is taken along the voxels of one team, not along
  the teams at one voxel.
\<close>

theorem img_var_mean_team_variance:
  assumes "A \<noteq> []" and "list_all (\<lambda>r. r \<noteq> []) A"
  shows "img_var (map (map Fin) A) = Fin ((\<Sum>i<length A. team_variance (A ! i)) / real (length A))"
proof -
  have "map np_var (map (map Fin) A) = map Fin (map team_variance A)"
    using assms(2) by (induction A) (simp_all add: np_var_Fin)
  then have "img_var (map (map Fin) A) = Fin (sum_list (map team_variance A) / real (length A))"
    using assms(1) by (simp add: img_var_def np_var_axis1_def np_mean_Fin del: map_map)
  then show ?thesis by (simp add: sum_list_lessThan)
qed

text \<open>Claim C1, witness: two teams with the voxel values 0 and 2.\<close>

theorem img_var_mean_team_variance_witness:
  "[[0, 2], [0, 2 :: real]] \<noteq> [] \<and> list_all (\<lambda>r. r \<noteq> []) [[0, 2], [0, 2 :: real]] \<and>
   team_variance [0, 2] = 1 \<and>
   img_var [[Fin 0, Fin 2], [Fin 0, Fin 2]] = Fin 1"
  using img_var_mean_team_variance [of "[[0, 2], [0, 2]]"]
  by (simp add: team_variance_def lessThan_Suc numeral_2_eq_2)

text \<open>
  Claim C1, counterexample: for two teams that both have the voxel values 0 and 2 the
  estimate of the code is 1, while the mean over the voxels of the variance across the
  teams is 0, with either divisor.
\<close>

theorem img_var_not_voxelwise:
  "img_var [[Fin 0, Fin 2], [Fin 0, Fin 2]] = Fin 1 \<and>
   voxelwise_variance 1 [[Fin 0, Fin 2], [Fin 0, Fin 2]] = Fin 0 \<and>
   voxelwise_variance 0 [[Fin 0, Fin 2], [Fin 0, Fin 2]] = Fin 0 \<and>
   img_var [[Fin 0, Fin 2], [Fin 0, Fin 2]] \<noteq> voxelwise_variance 1 [[Fin 0, Fin 2], [Fin 0, Fin 2]]"
  by (simp add: img_var_def np_var_axis1_def np_var_def np_mean_def np_sum_def fsub_def Let_def
      voxelwise_variance_def var_ddof_def column_def ncols_def)

subsection \<open>Heterogeneity of identical teams\<close>

text \<open>
  Claim C2, as the code has it: for four teams with the voxel values 1, 2, 3 the
  correlation matrix is all ones, the normaliser \<open>trace(R.dot(Q))\<close> is 0, the quadratic
  form is 0 at every voxel, and \<open>tau\<close> is \<open>sqrt((1/0) * 0) = nan\<close> at every voxel.
\<close>

theorem tau_identical_teams_nan:
  "np_corrcoef identical_teams = Array2 (np_ones 4 4) \<and>
   sampvar_est 4 (np_ones 4 4) = Fin 0 \<and>
   map (quadratic_form identical_teams) [0..<3] = [Fin 0, Fin 0, Fin 0] \<and>
   tau identical_teams (np_ones 4 4) = [NaN, NaN, NaN]"
  by (simp only: corrcoef_identical_teams sampvar_identical_teams quadratic_form_identical_teams
        tau_def tau2_identical_teams list.map fsqrt.simps simp_thms)

text \<open>
  Claim C2, counterexample: for that input no entry of \<open>tau\<close> is approximately zero.
\<close>

theorem tau_identical_teams_not_approx_zero:
  "np_corrcoef identical_teams = Array2 (np_ones 4 4) \<and>
   \<not> list_ex approx_zero (tau identical_teams (np_ones 4 4))"
  by (simp add: corrcoef_identical_teams tau_def tau2_identical_teams approx_zero_def)

subsection \<open>The sign of the heterogeneity estimate\<close>




section \<open>The mask round trip\<close>

lemma length_scatter: "length (scatter bs xs) = length bs"
  by (induction bs xs rule: scatter.induct) simp_all

lemma mask_apply_scatter:
  "length xs = length (filter id bs) \<Longrightarrow> mask_apply bs (scatter bs xs) = xs"
  by (induction bs xs rule: scatter.induct) (simp_all add: mask_apply_def)

text \<open>
  Claim C7: for every mask with \<open>v\<close> true voxels and every vector \<open>x\<close> of length \<open>v\<close>,
  the forward transform of the volume that the inverse transform makes of \<open>x\<close> is the
  one-row matrix \<open>[x]\<close>: the round trip recovers \<open>x\<close> exactly.
\<close>

theorem mask_round_trip:
  assumes "length x = n_voxels m"
  shows "forward m [inverse_transform m x] = Inr [x]"
  using assms
  by (simp add: forward_one_def inverse_transform_def length_scatter mask_apply_scatter n_voxels_def)

text \<open>
  Claim C7, witness: a mask with three true voxels among four and a vector that holds a
  \<open>nan\<close>.
\<close>

theorem mask_round_trip_witness:
  "length [Fin 5, NaN, Fin (-1)] = n_voxels demo_mask \<and>
   cells (inverse_transform demo_mask [Fin 5, NaN, Fin (-1)]) = [Fin 5, Fin 0, NaN, Fin (-1)] \<and>
   forward demo_mask [inverse_transform demo_mask [Fin 5, NaN, Fin (-1)]]
     = Inr [[Fin 5, NaN, Fin (-1)]]"
  using mask_round_trip [of "[Fin 5, NaN, Fin (-1)]" demo_mask]
  by (simp add: n_voxels_def demo_mask_def inverse_transform_def)

section \<open>Properties of the run of a hypothesis\<close>

subsection \<open>Writing the output files\<close>

lemma result_path_inject:
  "result_path d hyp k1 = result_path d hyp k2 \<longleftrightarrow> k1 = k2"
  by (simp add: result_path_def path_join_def)

lemma distinct_out_paths: "distinct (out_paths e hyp)"
  by (simp add: out_paths_def result_path_inject)

lemma save_all_failed: "save_all pvs (f, Some err) = (f, Some err)"
  by (induction pvs) auto

lemma wrote_prefix_0: "wrote_prefix ps 0 f f"
  by (simp add: wrote_prefix_def)

lemma wrote_prefix_Suc:
  assumes "wrote_prefix ps k (f(p \<mapsto> File v)) f'"
  shows "wrote_prefix (p # ps) (Suc k) f f'"
proof -
  have "is_file f' p"
  proof (cases "p \<in> set (take k ps)")
    case True
    with assms show ?thesis by (simp add: wrote_prefix_def list_all_iff)
  next
    case False
    with assms have "f' p = Some (File v)" by (simp add: wrote_prefix_def)
    then show ?thesis by (simp add: is_file_def)
  qed
  with assms show ?thesis by (auto simp: wrote_prefix_def)
qed

lemma save_all_prefix:
  assumes "save_all pvs (f, None) = (f', r)"
  shows "\<exists>k\<le>length pvs. wrote_prefix (map fst pvs) k f f' \<and> (r = None \<longleftrightarrow> k = length pvs)"
  using assms
proof (induction pvs arbitrary: f)
  case Nil
  then show ?case by (simp add: wrote_prefix_0)
next
  case (Cons pv pvs)
  obtain p v where pv: "pv = (p, v)" by (cases pv)
  show ?case
  proof (cases "f p = Some Dir")
    case True
    with Cons.prems pv have "f' = f" and "r = Some IOError"
      by (simp_all add: to_filename_def save_all_failed)
    then show ?thesis by (intro exI [of _ 0]) (simp add: wrote_prefix_0)
  next
    case False
    with Cons.prems pv have "save_all pvs (f(p \<mapsto> File v), None) = (f', r)"
      by (simp add: to_filename_def)
    from Cons.IH [OF this] obtain k where k: "k \<le> length pvs"
      "wrote_prefix (map fst pvs) k (f(p \<mapsto> File v)) f'" "r = None \<longleftrightarrow> k = length pvs"
      by blast
    then show ?thesis
      using pv by (intro exI [of _ "Suc k"]) (simp add: wrote_prefix_Suc)
  qed
qed

lemma save_all_frame:
  assumes "save_all pvs (f, None) = (f', r)" and "p \<notin> fst ` set pvs"
  shows "f' p = f p"
proof -
  from save_all_prefix [OF assms(1)] obtain k where "wrote_prefix (map fst pvs) k f f'"
    by blast
  moreover have "p \<notin> set (take k (map fst pvs))"
    using assms(2) by (auto dest: in_set_takeD)
  ultimately show ?thesis by (simp add: wrote_prefix_def)
qed

lemma save_all_idem:
  assumes "save_all pvs (f, None) = (f', r)" and "distinct (map fst pvs)"
  shows "save_all pvs (f', None) = (f', r)"
  using assms
proof (induction pvs arbitrary: f)
  case Nil
  then show ?case by simp
next
  case (Cons pv pvs)
  obtain p v where pv: "pv = (p, v)" by (cases pv)
  show ?case
  proof (cases "f p = Some Dir")
    case True
    with Cons.prems(1) pv have "f' = f" and "r = Some IOError"
      by (simp_all add: to_filename_def save_all_failed)
    with True pv show ?thesis by (simp add: to_filename_def save_all_failed)
  next
    case False
    with Cons.prems(1) pv have rest: "save_all pvs (f(p \<mapsto> File v), None) = (f', r)"
      by (simp add: to_filename_def)
    have "p \<notin> fst ` set pvs"
      using Cons.prems(2) pv by auto
    from save_all_frame [OF rest this] have fp: "f' p = Some (File v)" by simp
    then have "f'(p \<mapsto> File v) = f'" by (auto simp: fun_upd_idem_iff)
    moreover have "save_all pvs (f', None) = (f', r)"
      using Cons.IH [OF rest] Cons.prems(2) by simp
    ultimately show ?thesis using pv fp by (simp add: to_filename_def)
  qed
qed

lemma write_results_save_all:
  "write_results e hyp data cc tvals pvals f =
     save_all
       [(result_path (results_dir e) hyp ''t'', inverse_transform (MNI_mask e) tvals),
        (result_path (results_dir e) hyp ''1-p'', inverse_transform (MNI_mask e) (one_minus pvals)),
        (result_path (results_dir e) hyp ''1-fdr'',
           inverse_transform (MNI_mask e) (one_minus (snd (multipletests e pvals)))),
        (result_path (results_dir e) hyp ''tau'', inverse_transform (MNI_mask e) (tau data cc))]
       (f, None)"
  by (simp add: write_results_def Let_def)

lemma write_results_prefix:
  assumes "write_results e hyp data cc tvals pvals f = (f', r)"
  shows "\<exists>k\<le>4. wrote_prefix (out_paths e hyp) k f f' \<and> (r = None \<longleftrightarrow> k = 4)"
  using save_all_prefix [OF assms [unfolded write_results_save_all]]
  by (simp add: out_paths_def numeral_eq_Suc)

lemma write_results_no_dir:
  assumes "list_all (\<lambda>p. f p \<noteq> Some Dir) (out_paths e hyp)"
  shows "write_results e hyp data cc tvals pvals f =
     (f(result_path (results_dir e) hyp ''t'' \<mapsto> File (inverse_transform (MNI_mask e) tvals),
        result_path (results_dir e) hyp ''1-p'' \<mapsto>
          File (inverse_transform (MNI_mask e) (one_minus pvals)),
        result_path (results_dir e) hyp ''1-fdr'' \<mapsto>
          File (inverse_transform (MNI_mask e) (one_minus (snd (multipletests e pvals)))),
        result_path (results_dir e) hyp ''tau'' \<mapsto>
          File (inverse_transform (MNI_mask e) (tau data cc))), None)"
  using assms
  by (simp add: write_results_def Let_def out_paths_def to_filename_def result_path_inject)

lemma write_results_idem:
  assumes "write_results e hyp data cc tvals pvals f = (f', r)"
  shows "write_results e hyp data cc tvals pvals f' = (f', r)"
  using assms unfolding write_results_save_all
  by (rule save_all_idem) (simp add: result_path_inject)

lemma consensus_prefix:
  assumes "consensus e hyp data f = (f', r)"
  shows "\<exists>k\<le>4. wrote_prefix (out_paths e hyp) k f f' \<and> (r \<noteq> None \<longrightarrow> k < 4)"
proof (cases "np_corrcoef data")
  case (Scalar c)
  with assms have "f' = f" by (simp add: consensus_def)
  then show ?thesis by (intro exI [of _ 0]) (simp add: wrote_prefix_0)
next
  case (Array2 cc)
  show ?thesis
  proof (cases "t_corr e data (img_mean data) (img_var data) cc")
    case (Inl err)
    with assms Array2 have "f' = f" by (simp add: consensus_def)
    then show ?thesis by (intro exI [of _ 0]) (simp add: wrote_prefix_0)
  next
    case (Inr tp)
    obtain tvals pvals where "tp = (tvals, pvals)" by (cases tp)
    with assms Array2 Inr have "write_results e hyp data cc tvals pvals f = (f', r)"
      by (simp add: consensus_def)
    from write_results_prefix [OF this] show ?thesis by auto
  qed
qed

lemma consensus_idem:
  assumes "consensus e hyp data f = (f', r)"
  shows "consensus e hyp data f' = (f', r)"
proof (cases "np_corrcoef data")
  case (Scalar c)
  with assms show ?thesis by (simp add: consensus_def)
next
  case (Array2 cc)
  show ?thesis
  proof (cases "t_corr e data (img_mean data) (img_var data) cc")
    case (Inl err)
    with assms Array2 show ?thesis by (simp add: consensus_def)
  next
    case (Inr tp)
    obtain tvals pvals where tp: "tp = (tvals, pvals)" by (cases tp)
    with assms Array2 Inr have "write_results e hyp data cc tvals pvals f = (f', r)"
      by (simp add: consensus_def)
    from write_results_idem [OF this] show ?thesis
      using Array2 Inr tp by (simp add: consensus_def)
  qed
qed

lemma run_hyp_idem:
  assumes "run_hyp e True hyp f = (f', r)"
  shows "run_hyp e True hyp f' = (f', r)"
proof (cases "fit_transform e (sort (glob_maps e hyp))")
  case (Inl err)
  with assms show ?thesis by (simp add: run_hyp_def)
next
  case (Inr data)
  with assms have "consensus e hyp data f = (f', r)" by (simp add: run_hyp_def)
  from consensus_idem [OF this] show ?thesis using Inr by (simp add: run_hyp_def)
qed

text \<open>
  The only failures that \<^verbatim>\<open>run_ttests\<close> adds to those of the correlated t-test are the
  \<open>ValueError\<close> of the log message and the failure of a write: a \<open>DegenerateInput\<close> or
  \<open>NumericInstability\<close> failure of a hypothesis can only be one that the t-test raised.
\<close>

lemma save_all_error:
  assumes "save_all pvs (f, None) = (f', r)"
  shows "r = None \<or> r = Some IOError"
  using assms
proof (induction pvs arbitrary: f)
  case Nil
  then show ?case by simp
next
  case (Cons pv pvs)
  obtain p v where pv: "pv = (p, v)" by (cases pv)
  show ?case
  proof (cases "f p = Some Dir")
    case True
    with Cons.prems pv show ?thesis by (simp add: to_filename_def save_all_failed)
  next
    case False
    with Cons.prems pv have "save_all pvs (f(p \<mapsto> File v), None) = (f', r)"
      by (simp add: to_filename_def)
    then show ?thesis by (rule Cons.IH)
  qed
qed

lemma write_results_error:
  assumes "write_results e hyp data cc tvals pvals f = (f', r)"
  shows "r = None \<or> r = Some IOError"
  using assms unfolding write_results_save_all by (rule save_all_error)

lemma consensus_error_origin:
  assumes "snd (consensus e hyp data f) = Some err" and "err \<noteq> IOError" and "err \<noteq> ValueError"
  shows "\<exists>cc. np_corrcoef data = Array2 cc \<and>
           t_corr e data (img_mean data) (img_var data) cc = Inl err"
proof (cases "np_corrcoef data")
  case (Scalar c)
  with assms show ?thesis by (simp add: consensus_def)
next
  case (Array2 cc)
  show ?thesis
  proof (cases "t_corr e data (img_mean data) (img_var data) cc")
    case (Inl err')
    with assms Array2 show ?thesis by (simp add: consensus_def)
  next
    case (Inr tp)
    obtain tvals pvals where tp: "tp = (tvals, pvals)" by (cases tp)
    obtain f' r where w: "write_results e hyp data cc tvals pvals f = (f', r)"
      by (cases "write_results e hyp data cc tvals pvals f")
    from write_results_error [OF w] assms Array2 Inr tp w show ?thesis
      by (auto simp: consensus_def)
  qed
qed

subsection \<open>The example runs\<close>

lemmas run_simps = run_hyp_def consensus_def write_results_def fit_transform_def forward_one_def
  mask_apply_def inverse_transform_def to_filename_def result_path_def path_join_def
  show_nat.simps one_minus_def path_exists_def t_corr_spec_def demo_env_def demo_mask_def
  demo_volume_def demo_two_sided_p_def demo_multipletests_def img_mean_def img_var_def
  np_mean_all_def np_var_axis1_def np_var_def

lemma demo_fit_transform:
  "fit_transform (demo_env [Fin 1, Fin 9, Fin 2, Fin 3] [Fin 2, Fin 9, Fin 1, Fin 3])
     (sort (glob_maps (demo_env [Fin 1, Fin 9, Fin 2, Fin 3] [Fin 2, Fin 9, Fin 1, Fin 3]) 1))
   = Inr [[Fin 1, Fin 2, Fin 3], [Fin 2, Fin 1, Fin 3]]"
  by (simp add: run_simps)

lemma identical_corrcoef: "np_corrcoef two_identical_teams = Array2 (np_ones 2 2)"
  by (simp add: two_identical_teams_def np_simps numeral_eq_Suc)

lemma identical_tau: "tau two_identical_teams (np_ones 2 2) = [NaN, NaN, NaN]"
  by (simp add: two_identical_teams_def np_simps numeral_eq_Suc)

subsection \<open>Degenerate input\<close>

lemma corrcoef_not_one_row: "length data \<noteq> 1 \<Longrightarrow> \<exists>cc. np_corrcoef data = Array2 cc"
  by (simp add: np_corrcoef_def Let_def)

lemma corrcoef_one_row: "length data = 1 \<Longrightarrow> \<exists>c. np_corrcoef data = Scalar c"
  by (simp add: np_corrcoef_def Let_def)

text \<open>
  Claim C3, as the code and the modelled t-test have it: a feature matrix with exactly
  one team fails with numpy's \<open>ValueError\<close>, raised while the mean correlation is
  logged, before the t-test is called. A feature matrix with no team, or with two or
  more teams and a variance estimate that is zero or \<open>nan\<close>, fails with
  \<open>DegenerateInput\<close>, raised by the correlated t-test. In both cases nothing is written.
\<close>

theorem degenerate_input_fails:
  assumes "t_corr e = t_corr_spec p"
  shows "(length data = 1 \<longrightarrow> consensus e hyp data f = (f, Some ValueError)) \<and>
         (length data \<noteq> 1 \<and> (length data < 2 \<or> img_var data = Fin 0 \<or> img_var data = NaN) \<longrightarrow>
            consensus e hyp data f = (f, Some DegenerateInput))"
proof (intro conjI impI)
  assume "length data = 1"
  from corrcoef_one_row [OF this] show "consensus e hyp data f = (f, Some ValueError)"
    by (auto simp: consensus_def)
next
  assume h: "length data \<noteq> 1 \<and> (length data < 2 \<or> img_var data = Fin 0 \<or> img_var data = NaN)"
  then obtain cc where "np_corrcoef data = Array2 cc"
    using corrcoef_not_one_row by blast
  moreover have "t_corr_spec p data (img_mean data) (img_var data) cc = Inl DegenerateInput"
    using h by (auto simp: t_corr_spec_def)
  ultimately show "consensus e hyp data f = (f, Some DegenerateInput)"
    using assms by (simp add: consensus_def)
qed

text \<open>
  Claim C3, witness: two constant teams (variance 0), a matrix with a \<open>nan\<close> entry
  (variance \<open>nan\<close>), no team, and a single team.
\<close>

theorem degenerate_input_fails_witness:
  "t_corr demo = t_corr_spec demo_two_sided_p \<and>
   img_var constant_teams = Fin 0 \<and>
   consensus demo 1 constant_teams Map.empty = (Map.empty, Some DegenerateInput) \<and>
   img_var nan_teams = NaN \<and>
   consensus demo 1 nan_teams Map.empty = (Map.empty, Some DegenerateInput) \<and>
   consensus demo 1 [] Map.empty = (Map.empty, Some DegenerateInput) \<and>
   consensus demo 1 single_team Map.empty = (Map.empty, Some ValueError)"
proof -
  have t: "t_corr demo = t_corr_spec demo_two_sided_p"
    by (simp add: demo_def demo_env_def)
  have v: "img_var constant_teams = Fin 0" "img_var nan_teams = NaN"
    by (simp_all add: constant_teams_def nan_teams_def img_var_def np_var_axis1_def np_var_def
          np_mean_def np_sum_def fsub_def)
  show ?thesis
    using degenerate_input_fails [OF t, of constant_teams 1 Map.empty]
      degenerate_input_fails [OF t, of nan_teams 1 Map.empty]
      degenerate_input_fails [OF t, of "[]" 1 Map.empty]
      degenerate_input_fails [OF t, of single_team 1 Map.empty]
      t v
    by (simp add: constant_teams_def nan_teams_def single_team_def)
qed

text \<open>
  Claim C3, counterexample: a single team fails with \<open>ValueError\<close>, not with
  \<open>DegenerateInput\<close>.
\<close>

theorem single_team_value_error:
  "length single_team < 2 \<and>
   consensus demo 1 single_team Map.empty = (Map.empty, Some ValueError) \<and>
   consensus demo 1 single_team Map.empty \<noteq> (Map.empty, Some DegenerateInput)"
  by (simp add: single_team_def consensus_def np_corrcoef_def Let_def)

subsection \<open>Non-finite result vectors\<close>

text \<open>
  Claim C5, as the code has it: nothing checks the result vectors. Once the correlated
  t-test has returned and no output path is taken by a directory, the hypothesis ends
  without a failure and the four files hold the inverse transforms of the four vectors
  as they were computed, whatever their entries are.
\<close>

theorem vectors_written_unchecked:
  assumes "np_corrcoef data = Array2 cc"
    and "t_corr e data (img_mean data) (img_var data) cc = Inr (tvals, pvals)"
    and "list_all (\<lambda>p. f p \<noteq> Some Dir) (out_paths e hyp)"
  shows "consensus e hyp data f =
     (f(result_path (results_dir e) hyp ''t'' \<mapsto> File (inverse_transform (MNI_mask e) tvals),
        result_path (results_dir e) hyp ''1-p'' \<mapsto>
          File (inverse_transform (MNI_mask e) (one_minus pvals)),
        result_path (results_dir e) hyp ''1-fdr'' \<mapsto>
          File (inverse_transform (MNI_mask e) (one_minus (snd (multipletests e pvals)))),
        result_path (results_dir e) hyp ''tau'' \<mapsto>
          File (inverse_transform (MNI_mask e) (tau data cc))), None)"
  using assms by (simp add: consensus_def write_results_no_dir)

text \<open>
  Claim C5, witness: two identical teams; the \<open>tau\<close> vector is \<open>nan\<close> at every voxel
  and is what the \<open>tau\<close> file holds.
\<close>

theorem vectors_written_unchecked_witness:
  "np_corrcoef two_identical_teams = Array2 (np_ones 2 2) \<and>
   list_all (\<lambda>p. Map.empty p \<noteq> Some Dir) (out_paths identical_env 1) \<and>
   tau two_identical_teams (np_ones 2 2) = [NaN, NaN, NaN] \<and>
   snd (consensus identical_env 1 two_identical_teams Map.empty) = None \<and>
   fst (consensus identical_env 1 two_identical_teams Map.empty)
       (result_path (results_dir identical_env) 1 ''tau'')
     = Some (File (inverse_transform (MNI_mask identical_env) [NaN, NaN, NaN]))"
proof -
  have "\<exists>tvals pvals.
      t_corr identical_env two_identical_teams (img_mean two_identical_teams)
        (img_var two_identical_teams) (np_ones 2 2) = Inr (tvals, pvals)"
    by (simp add: identical_env_def demo_env_def t_corr_spec_def two_identical_teams_def
          img_var_def np_var_axis1_def np_var_def np_mean_def np_sum_def fsub_def Let_def)
  then obtain tvals pvals where
    t: "t_corr identical_env two_identical_teams (img_mean two_identical_teams)
          (img_var two_identical_teams) (np_ones 2 2) = Inr (tvals, pvals)"
    by blast
  have d: "list_all (\<lambda>p. Map.empty p \<noteq> Some Dir) (out_paths identical_env 1)"
    by (simp add: out_paths_def)
  show ?thesis
    using vectors_written_unchecked [OF identical_corrcoef t d] identical_corrcoef d
    by (simp add: identical_tau)
qed

text \<open>
  Claim C5, counterexample: for two identical teams every entry of \<open>tau\<close> is \<open>nan\<close>;
  the run of the hypothesis ends without any failure, and the \<open>tau\<close> file holds the
  \<open>nan\<close> values.
\<close>

theorem nan_tau_is_written:
  "list_all nonfinite (tau two_identical_teams (np_ones 2 2)) \<and>
   snd (run_hyp identical_env True 1 Map.empty) = None \<and>
   fst (run_hyp identical_env True 1 Map.empty) ''out/consensus/hypo1_tau.nii.gz''
     = Some (File \<lparr>shape = (1, 2, 2), affine = [], cells = [NaN, Fin 0, NaN, NaN]\<rparr>)"
  by (simp add: nonfinite_def isfinite_def identical_env_def two_identical_teams_def run_simps np_simps numeral_eq_Suc)

subsection \<open>Failure after the first write\<close>

lemma run_hyp_prefix:
  assumes "run_hyp e overwrite hyp f = (f', r)"
  shows "\<exists>k\<le>4. wrote_prefix (out_paths e hyp) k f f' \<and> (r \<noteq> None \<longrightarrow> k < 4)"
proof (cases "\<not> overwrite \<and> path_exists f (result_path (results_dir e) hyp ''1-fdr'')")
  case True
  with assms have "f' = f" by (simp add: run_hyp_def)
  then show ?thesis by (intro exI [of _ 0]) (simp add: wrote_prefix_0)
next
  case False
  show ?thesis
  proof (cases "fit_transform e (sort (glob_maps e hyp))")
    case (Inl err)
    with assms False have "f' = f" by (auto simp: run_hyp_def)
    then show ?thesis by (intro exI [of _ 0]) (simp add: wrote_prefix_0)
  next
    case (Inr data)
    with assms False have "consensus e hyp data f = (f', r)"
      by (auto simp: run_hyp_def)
    then show ?thesis by (rule consensus_prefix)
  qed
qed

lemma put_all_Cons: "put_all f ((p, v) # pvs) = put_all (f(p \<mapsto> File v)) pvs"
  by (simp add: put_all_def)

lemma n_writable_upd:
  assumes "p \<notin> set ps"
  shows "n_writable (f(p \<mapsto> File v)) ps = n_writable f ps"
proof -
  have "takeWhile (\<lambda>q. (f(p \<mapsto> File v)) q \<noteq> Some Dir) ps = takeWhile (\<lambda>q. f q \<noteq> Some Dir) ps"
    using assms by (intro takeWhile_cong) auto
  then show ?thesis by (simp add: n_writable_def)
qed

lemma save_all_exact:
  assumes "distinct (map fst pvs)"
  shows "save_all pvs (f, None) =
     (put_all f (take (n_writable f (map fst pvs)) pvs),
      if n_writable f (map fst pvs) = length pvs then None else Some IOError)"
  using assms
proof (induction pvs arbitrary: f)
  case Nil
  show ?case by (simp add: put_all_def n_writable_def)
next
  case (Cons pv pvs)
  obtain p v where pv: "pv = (p, v)" by (cases pv)
  show ?case
  proof (cases "f p = Some Dir")
    case True
    then show ?thesis
      by (simp add: pv to_filename_def save_all_failed n_writable_def put_all_def)
  next
    case False
    have notin: "p \<notin> set (map fst pvs)" and d: "distinct (map fst pvs)"
      using Cons.prems pv by simp_all
    have n: "n_writable f (p # map fst pvs) = Suc (n_writable f (map fst pvs))"
      using False by (simp add: n_writable_def)
    have "save_all (pv # pvs) (f, None) = save_all pvs (f(p \<mapsto> File v), None)"
      using False by (simp add: pv to_filename_def)
    also have "\<dots> = (put_all (f(p \<mapsto> File v)) (take (n_writable f (map fst pvs)) pvs),
        if n_writable f (map fst pvs) = length pvs then None else Some IOError)"
      using Cons.IH [OF d] by (simp only: n_writable_upd [OF notin])
    finally have e: "save_all (pv # pvs) (f, None) =
        (put_all (f(p \<mapsto> File v)) (take (n_writable f (map fst pvs)) pvs),
         if n_writable f (map fst pvs) = length pvs then None else Some IOError)" .
    show ?thesis
      unfolding e by (simp add: pv n put_all_Cons)
  qed
qed

lemma write_results_exact:
  "write_results e hyp data cc tvals pvals f =
     (put_all f (take (n_writable f (out_paths e hyp)) (outputs e hyp data cc tvals pvals)),
      if n_writable f (out_paths e hyp) = 4 then None else Some IOError)"
proof -
  have "distinct (map fst (outputs e hyp data cc tvals pvals))"
    by (simp add: outputs_def result_path_inject)
  from save_all_exact [OF this, of f] show ?thesis
    by (simp add: write_results_save_all outputs_def out_paths_def)
qed

lemma run_hyp_non_write_failure:
  assumes "run_hyp e overwrite hyp f = (f', Some err)" and "err \<noteq> IOError"
  shows "f' = f"
proof (cases "\<not> overwrite \<and> path_exists f (result_path (results_dir e) hyp ''1-fdr'')")
  case True
  with assms show ?thesis by (simp add: run_hyp_def)
next
  case False
  show ?thesis
  proof (cases "fit_transform e (sort (glob_maps e hyp))")
    case (Inl x)
    with assms False show ?thesis by (auto simp: run_hyp_def)
  next
    case (Inr data)
    with assms False have c: "consensus e hyp data f = (f', Some err)"
      by (auto simp: run_hyp_def)
    show ?thesis
    proof (cases "np_corrcoef data")
      case (Scalar x)
      with c show ?thesis by (simp add: consensus_def)
    next
      case (Array2 cc)
      show ?thesis
      proof (cases "t_corr e data (img_mean data) (img_var data) cc")
        case (Inl x)
        with c Array2 show ?thesis by (simp add: consensus_def)
      next
        case (Inr tp)
        obtain tvals pvals where "tp = (tvals, pvals)" by (cases tp)
        with c Array2 Inr have "write_results e hyp data cc tvals pvals f = (f', Some err)"
          by (simp add: consensus_def)
        from write_results_error [OF this] assms(2) show ?thesis by simp
      qed
    qed
  qed
qed

lemma demo_data_facts:
  "fit_transform demo (sort (glob_maps demo 1)) = Inr [[Fin 1, Fin 2, Fin 3], [Fin 2, Fin 1, Fin 3]]"
  unfolding demo_def by (rule demo_fit_transform)

lemma demo_corrcoef:
  "np_corrcoef [[Fin 1, Fin 2, Fin 3], [Fin 2, Fin 1, Fin 3]]
     = Array2 [[Fin 1, Fin (1 / 2)], [Fin (1 / 2), Fin 1]]"
  by (simp add: np_simps)

lemma demo_t_corr_returns:
  "\<exists>tvals pvals.
      t_corr demo [[Fin 1, Fin 2, Fin 3], [Fin 2, Fin 1, Fin 3]]
        (img_mean [[Fin 1, Fin 2, Fin 3], [Fin 2, Fin 1, Fin 3]])
        (img_var [[Fin 1, Fin 2, Fin 3], [Fin 2, Fin 1, Fin 3]])
        [[Fin 1, Fin (1 / 2)], [Fin (1 / 2), Fin 1]] = Inr (tvals, pvals)"
  by (simp add: demo_def demo_env_def t_corr_spec_def img_var_def np_var_axis1_def np_var_def
        np_mean_def np_sum_def fsub_def Let_def)

text \<open>
  Claim C6, as the code has it: the four files are written one after the other, in the
  order \<open>t\<close>, \<open>1-p\<close>, \<open>1-fdr\<close>, \<open>tau\<close>, and nothing is rolled back. A failure that is
  not the failure of a write happens before the first write and leaves the file system
  as it was. Once the correlated t-test has returned, the files are written in order up
  to the first output path that is taken by a directory: the hypothesis fails there,
  and the files written before it stay; it ends without a failure exactly when all
  four are written.
\<close>

theorem writes_stay_after_failure:
  "(run_hyp e overwrite hyp f = (f', Some err) \<and> err \<noteq> IOError \<longrightarrow> f' = f) \<and>
   ((overwrite \<or> \<not> path_exists f (result_path (results_dir e) hyp ''1-fdr'')) \<and>
    fit_transform e (sort (glob_maps e hyp)) = Inr data \<and>
    np_corrcoef data = Array2 cc \<and>
    t_corr e data (img_mean data) (img_var data) cc = Inr (tvals, pvals) \<longrightarrow>
      run_hyp e overwrite hyp f =
        (put_all f (take (n_writable f (out_paths e hyp)) (outputs e hyp data cc tvals pvals)),
         if n_writable f (out_paths e hyp) = 4 then None else Some IOError))"
proof (intro conjI impI)
  assume "run_hyp e overwrite hyp f = (f', Some err) \<and> err \<noteq> IOError"
  then show "f' = f" using run_hyp_non_write_failure by blast
next
  assume h: "(overwrite \<or> \<not> path_exists f (result_path (results_dir e) hyp ''1-fdr'')) \<and>
    fit_transform e (sort (glob_maps e hyp)) = Inr data \<and>
    np_corrcoef data = Array2 cc \<and>
    t_corr e data (img_mean data) (img_var data) cc = Inr (tvals, pvals)"
  then have "run_hyp e overwrite hyp f = write_results e hyp data cc tvals pvals f"
    by (auto simp: run_hyp_def consensus_def)
  then show "run_hyp e overwrite hyp f =
        (put_all f (take (n_writable f (out_paths e hyp)) (outputs e hyp data cc tvals pvals)),
         if n_writable f (out_paths e hyp) = 4 then None else Some IOError)"
    by (simp only: write_results_exact)
qed

text \<open>
  Claim C6, witness: the run of hypothesis 1 where the path of the \<open>tau\<close> image is a
  directory. Three output paths can be written; the run fails, and the file system
  afterwards is the one before with the \<open>t\<close>, \<open>1-p\<close> and \<open>1-fdr\<close> images added.
\<close>

theorem writes_stay_after_failure_witness:
  "n_writable blocked_tau (out_paths demo 1) = 3 \<and>
   snd (run_hyp demo True 1 blocked_tau) = Some IOError \<and>
   (\<exists>tvals pvals.
      t_corr demo [[Fin 1, Fin 2, Fin 3], [Fin 2, Fin 1, Fin 3]]
        (img_mean [[Fin 1, Fin 2, Fin 3], [Fin 2, Fin 1, Fin 3]])
        (img_var [[Fin 1, Fin 2, Fin 3], [Fin 2, Fin 1, Fin 3]])
        [[Fin 1, Fin (1 / 2)], [Fin (1 / 2), Fin 1]] = Inr (tvals, pvals) \<and>
      fst (run_hyp demo True 1 blocked_tau) =
        blocked_tau
          (''out/consensus/hypo1_t.nii.gz'' \<mapsto> File (inverse_transform demo_mask tvals),
           ''out/consensus/hypo1_1-p.nii.gz'' \<mapsto>
             File (inverse_transform demo_mask (one_minus pvals)),
           ''out/consensus/hypo1_1-fdr.nii.gz'' \<mapsto>
             File (inverse_transform demo_mask (one_minus (snd (demo_multipletests pvals))))))"
proof -
  obtain tvals pvals where
    t: "t_corr demo [[Fin 1, Fin 2, Fin 3], [Fin 2, Fin 1, Fin 3]]
        (img_mean [[Fin 1, Fin 2, Fin 3], [Fin 2, Fin 1, Fin 3]])
        (img_var [[Fin 1, Fin 2, Fin 3], [Fin 2, Fin 1, Fin 3]])
        [[Fin 1, Fin (1 / 2)], [Fin (1 / 2), Fin 1]] = Inr (tvals, pvals)"
    using demo_t_corr_returns by blast
  have k: "n_writable blocked_tau (out_paths demo 1) = 3"
    by (simp add: n_writable_def out_paths_def blocked_tau_def demo_def demo_env_def
          result_path_def path_join_def show_nat.simps)
  have e: "MNI_mask demo = demo_mask" "results_dir demo = ''out/consensus''"
    "multipletests demo = demo_multipletests"
    by (simp_all add: demo_def demo_env_def)
  have r: "run_hyp demo True 1 blocked_tau =
      (put_all blocked_tau (take 3 (outputs demo 1 [[Fin 1, Fin 2, Fin 3], [Fin 2, Fin 1, Fin 3]]
           [[Fin 1, Fin (1 / 2)], [Fin (1 / 2), Fin 1]] tvals pvals)), Some IOError)"
    using writes_stay_after_failure [of demo True 1 blocked_tau _ _
        "[[Fin 1, Fin 2, Fin 3], [Fin 2, Fin 1, Fin 3]]"
        "[[Fin 1, Fin (1 / 2)], [Fin (1 / 2), Fin 1]]" tvals pvals]
      demo_data_facts demo_corrcoef t k
    by simp
  have "fst (run_hyp demo True 1 blocked_tau) =
        blocked_tau
          (''out/consensus/hypo1_t.nii.gz'' \<mapsto> File (inverse_transform demo_mask tvals),
           ''out/consensus/hypo1_1-p.nii.gz'' \<mapsto>
             File (inverse_transform demo_mask (one_minus pvals)),
           ''out/consensus/hypo1_1-fdr.nii.gz'' \<mapsto>
             File (inverse_transform demo_mask (one_minus (snd (demo_multipletests pvals)))))"
    unfolding r
    by (simp add: outputs_def put_all_def e result_path_def path_join_def show_nat.simps)
  with t k r show ?thesis by auto
qed

text \<open>
  Claim C6, counterexample: where the path of the \<open>tau\<close> image is a directory, the
  hypothesis fails at its last write, and the \<open>t\<close>, \<open>1-p\<close> and \<open>1-fdr\<close> files, which
  did not exist before, are left behind without the \<open>tau\<close> file.
\<close>

theorem failed_run_leaves_partial_output:
  "snd (run_hyp demo True 1 blocked_tau) = Some IOError \<and>
   \<not> path_exists blocked_tau ''out/consensus/hypo1_t.nii.gz'' \<and>
   is_file (fst (run_hyp demo True 1 blocked_tau)) ''out/consensus/hypo1_t.nii.gz'' \<and>
   is_file (fst (run_hyp demo True 1 blocked_tau)) ''out/consensus/hypo1_1-p.nii.gz'' \<and>
   is_file (fst (run_hyp demo True 1 blocked_tau)) ''out/consensus/hypo1_1-fdr.nii.gz'' \<and>
   \<not> is_file (fst (run_hyp demo True 1 blocked_tau)) ''out/consensus/hypo1_tau.nii.gz''"
  by (simp add: demo_def blocked_tau_def is_file_def run_simps np_simps)

subsection \<open>The overwrite policy\<close>

text \<open>
  Claim C8, as the code has it: with \<open>overwrite = False\<close> a hypothesis is skipped, and
  the file system left as it is, if and only if its \<open>1-fdr\<close> file exists (a file or a
  directory at that path); otherwise the run is the one with \<open>overwrite = True\<close>. With
  \<open>overwrite = True\<close> the hypothesis is recomputed, and running it again on the
  outcome gives the same file system and the same result.
\<close>

theorem overwrite_policy:
  "(path_exists f (result_path (results_dir e) hyp ''1-fdr'') \<longrightarrow>
      run_hyp e False hyp f = (f, None)) \<and>
   (\<not> path_exists f (result_path (results_dir e) hyp ''1-fdr'') \<longrightarrow>
      run_hyp e False hyp f = run_hyp e True hyp f) \<and>
   run_hyp e True hyp (fst (run_hyp e True hyp f)) = run_hyp e True hyp f"
proof (intro conjI impI)
  show "run_hyp e True hyp (fst (run_hyp e True hyp f)) = run_hyp e True hyp f"
    using run_hyp_idem [of e hyp f "fst (run_hyp e True hyp f)" "snd (run_hyp e True hyp f)"]
    by simp
qed (simp_all add: run_hyp_def)

text \<open>
  Claim C8, witness: hypothesis 1 on a file system that holds only its \<open>1-fdr\<close> file,
  and on the empty one.
\<close>

theorem overwrite_policy_witness:
  "path_exists only_fdr (result_path (results_dir demo) 1 ''1-fdr'') \<and>
   run_hyp demo False 1 only_fdr = (only_fdr, None) \<and>
   \<not> path_exists Map.empty (result_path (results_dir demo) 1 ''1-fdr'') \<and>
   run_hyp demo False 1 Map.empty = run_hyp demo True 1 Map.empty \<and>
   run_hyp demo True 1 (fst (run_hyp demo True 1 Map.empty)) = run_hyp demo True 1 Map.empty"
  using overwrite_policy [of only_fdr demo 1] overwrite_policy [of Map.empty demo 1]
  by (simp add: only_fdr_def path_exists_def result_path_def path_join_def show_nat.simps
        demo_def demo_env_def)

text \<open>
  Claim C8, counterexample: on a file system that holds only the \<open>1-fdr\<close> file, not all
  target artifacts exist, and yet the run with \<open>overwrite = False\<close> skips the
  hypothesis: it leaves the file system as it is, without the \<open>tau\<close> file that a
  recomputation writes.
\<close>

theorem skips_without_all_artifacts:
  "\<not> list_all (path_exists only_fdr) (out_paths demo 1) \<and>
   run_hyp demo False 1 only_fdr = (only_fdr, None) \<and>
   is_file (fst (run_hyp demo True 1 only_fdr)) ''out/consensus/hypo1_tau.nii.gz'' \<and>
   \<not> is_file only_fdr ''out/consensus/hypo1_tau.nii.gz''"
  by (simp add: only_fdr_def out_paths_def demo_def is_file_def run_simps np_simps)

subsection \<open>The order of the input maps\<close>

text \<open>
  Claim C10: the discovered paths are sorted before they are masked. Two enumerations
  of the same set of paths are sorted to the same list, so they give the same feature
  matrix, row by row, and the same outcome of the hypothesis.
\<close>

theorem listing_order_irrelevant:
  assumes "distinct (g hyp)" and "distinct (glob_maps e hyp)"
    and "set (g hyp) = set (glob_maps e hyp)"
  shows "sorted (sort (g hyp)) \<and> sort (g hyp) = sort (glob_maps e hyp) \<and>
         fit_transform (e\<lparr>glob_maps := g\<rparr>) (sort (g hyp))
           = fit_transform e (sort (glob_maps e hyp)) \<and>
         run_hyp (e\<lparr>glob_maps := g\<rparr>) overwrite hyp f = run_hyp e overwrite hyp f"
proof -
  have "mset (g hyp) = mset (glob_maps e hyp)"
    using assms by (simp add: set_eq_iff_mset_eq_distinct)
  then have s: "sort (g hyp) = sort (glob_maps e hyp)"
    by (intro properties_for_sort) simp_all
  have w: "write_results (e\<lparr>glob_maps := g\<rparr>) hyp data cc tvals pvals f
      = write_results e hyp data cc tvals pvals f" for data cc tvals pvals
    by (simp add: write_results_def)
  have c: "consensus (e\<lparr>glob_maps := g\<rparr>) hyp data f = consensus e hyp data f" for data
    by (simp add: consensus_def w split: ndarray.split sum.split)
  have ft: "fit_transform (e\<lparr>glob_maps := g\<rparr>) maps = fit_transform e maps" for maps
    by (simp add: fit_transform_def split: sum.split)
  have "run_hyp (e\<lparr>glob_maps := g\<rparr>) overwrite hyp f = run_hyp e overwrite hyp f"
    by (simp add: run_hyp_def s ft c split: sum.split)
  then show ?thesis
    using s ft by simp
qed

text \<open>
  Claim C10, witness: the maps of teams A and B, listed as B, A and as A, B; the rows of
  the feature matrix are those of A, then B.
\<close>

theorem listing_order_irrelevant_witness:
  "other_listing 1 \<noteq> glob_maps demo 1 \<and>
   set (other_listing 1) = set (glob_maps demo 1) \<and>
   sort (other_listing 1) = sort (glob_maps demo 1) \<and>
   fit_transform demo (sort (glob_maps demo 1)) = Inr [[Fin 1, Fin 2, Fin 3], [Fin 2, Fin 1, Fin 3]] \<and>
   run_hyp (demo\<lparr>glob_maps := other_listing\<rparr>) True 1 Map.empty = run_hyp demo True 1 Map.empty"
proof -
  have d: "distinct (other_listing 1)" "distinct (glob_maps demo 1)"
    "set (other_listing 1) = set (glob_maps demo 1)" "other_listing 1 \<noteq> glob_maps demo 1"
    by (auto simp: other_listing_def demo_def demo_env_def)
  have "fit_transform demo (sort (glob_maps demo 1)) = Inr [[Fin 1, Fin 2, Fin 3], [Fin 2, Fin 1, Fin 3]]"
    unfolding demo_def by (rule demo_fit_transform)
  then show ?thesis
    using listing_order_irrelevant [of other_listing 1 demo True Map.empty] d by simp
qed

subsection \<open>The loop over the hypotheses\<close>

text \<open>
  \<^verbatim>\<open>run_ttests\<close> catches no exception: the hypothesis that fails ends the loop, and the
  hypotheses after it are not processed.
\<close>

lemma run_ttests_append:
  "run_ttests e ow (pre @ post) f =
     (case run_ttests e ow pre f of
        (f', Some err) \<Rightarrow> (f', Some err)
      | (f', None) \<Rightarrow> run_ttests e ow post f')"
  by (induction pre arbitrary: f) (auto split: prod.splits option.splits)

lemma failure_ends_the_loop:
  assumes "run_ttests e overwrite pre f = (f0, None)"
    and "run_hyp e overwrite hyp f0 = (f', Some err)"
  shows "run_ttests e overwrite (pre @ hyp # post) f = (f', Some err)"
  using assms by (simp add: run_ttests_append)

section \<open>Monotonicity of the FDR correction\<close>

lemma length_put_at: "length (put_at idx vals acc) = length acc"
  unfolding put_at_def by (induction idx arbitrary: vals acc) (auto simp: zip_Cons1 split: list.splits)

lemma put_at_frame: "i \<notin> set idx \<Longrightarrow> put_at idx vals acc ! i = acc ! i"
  unfolding put_at_def
  by (induction idx arbitrary: vals acc) (auto simp: zip_Cons1 split: list.splits)

lemma put_at_nth:
  assumes "distinct idx" and "length vals = length idx" and "k < length idx"
    and "\<forall>i\<in>set idx. i < length acc"
  shows "put_at idx vals acc ! (idx ! k) = vals ! k"
  using assms
proof (induction idx arbitrary: vals acc k)
  case Nil
  then show ?case by simp
next
  case (Cons i idx)
  then obtain b vals' where vals: "vals = b # vals'" by (cases vals) auto
  have step: "put_at (i # idx) vals acc = put_at idx vals' (acc[i := b])"
    by (simp add: put_at_def vals)
  show ?case
  proof (cases k)
    case 0
    have "put_at idx vals' (acc[i := b]) ! i = acc[i := b] ! i"
      using Cons.prems(1) by (intro put_at_frame) simp
    then show ?thesis using 0 step vals Cons.prems(4) by simp
  next
    case (Suc k')
    have "put_at idx vals' (acc[i := b]) ! (idx ! k') = vals' ! k'"
      using Cons.prems Suc vals by (intro Cons.IH) auto
    then show ?thesis using Suc step vals by simp
  qed
qed

lemma count_true_card: "count_true bs = card {i. i < length bs \<and> bs ! i}"
  by (simp add: count_true_def length_filter_conv_card)

lemma count_true_put_at:
  assumes "distinct idx" and "set idx = {..<m}" and "length vals = length idx"
  shows "count_true (put_at idx vals (replicate m False)) = count_true vals"
proof -
  let ?r = "put_at idx vals (replicate m False)"
  have len: "length idx = m"
    using assms(1,2) distinct_card [of idx] by simp
  have nth: "?r ! (idx ! k) = vals ! k" if "k < m" for k
    using assms that len by (intro put_at_nth) auto
  have "{i. i < length ?r \<and> ?r ! i} = (\<lambda>k. idx ! k) ` {k. k < length vals \<and> vals ! k}"
  proof (intro set_eqI iffI)
    fix i assume "i \<in> {i. i < length ?r \<and> ?r ! i}"
    then have i: "i < m" "?r ! i" by (simp_all add: length_put_at)
    then have "i \<in> set idx" using assms(2) by simp
    then obtain k where k: "k < length idx" "idx ! k = i" by (auto simp: in_set_conv_nth)
    with i nth [of k] len have "vals ! k" by simp
    with k assms(3) show "i \<in> (\<lambda>k. idx ! k) ` {k. k < length vals \<and> vals ! k}" by auto
  next
    fix i assume "i \<in> (\<lambda>k. idx ! k) ` {k. k < length vals \<and> vals ! k}"
    then obtain k where k: "k < length vals" "vals ! k" "i = idx ! k" by auto
    then have "k < m" using assms(3) len by simp
    moreover from this have "idx ! k < m"
      using assms(2) len nth_mem [of k idx] by auto
    ultimately show "i \<in> {i. i < length ?r \<and> ?r ! i}"
      using k nth [of k] by (simp add: length_put_at)
  qed
  moreover have "inj_on (\<lambda>k. idx ! k) {k. k < length vals \<and> vals ! k}"
    using assms(1,3) by (auto simp: inj_on_def nth_eq_iff_index_eq)
  ultimately show ?thesis
    by (simp add: count_true_card card_image)
qed

lemma length_fdrcorrection: "length (fdrcorrection alpha qs) = length qs"
  by (simp add: fdrcorrection_def Let_def)

lemma bh_count_le: "bh_count alpha qs \<le> length qs"
  unfolding bh_count_def count_true_def
  using length_filter_le [of id "fdrcorrection alpha qs"] by (simp add: length_fdrcorrection)

lemma bh_count_eq:
  "bh_count alpha qs =
     (if \<exists>i<length qs. bh_below alpha qs i
      then Suc (Max {i. i < length qs \<and> bh_below alpha qs i}) else 0)"
proof (cases "\<exists>i<length qs. bh_below alpha qs i")
  case False
  then have "filter (bh_below alpha qs) [0..<length qs] = []"
    by (auto simp: filter_empty_conv)
  with False show ?thesis
    by (simp add: bh_count_def fdrcorrection_def count_true_def)
next
  case True
  let ?H = "{i. i < length qs \<and> bh_below alpha qs i}"
  let ?M = "Max ?H"
  have fin: "finite ?H" and ne: "?H \<noteq> {}" using True by auto
  have set_hits: "set (filter (bh_below alpha qs) [0..<length qs]) = ?H" by auto
  then have hits_ne: "filter (bh_below alpha qs) [0..<length qs] \<noteq> []"
    using ne by (metis empty_set)
  have M_in: "?M \<in> ?H" using Max_in [OF fin ne] .
  have "{i. i < length qs \<and> (i < ?M \<or> bh_below alpha qs i)} = {..?M}"
  proof (intro set_eqI iffI)
    fix i assume "i \<in> {i. i < length qs \<and> (i < ?M \<or> bh_below alpha qs i)}"
    then have "i < ?M \<or> i \<in> ?H" by auto
    then show "i \<in> {..?M}" using Max_ge [OF fin, of i] by auto
  next
    fix i assume "i \<in> {..?M}"
    then have "i < ?M \<or> i = ?M" by auto
    then show "i \<in> {i. i < length qs \<and> (i < ?M \<or> bh_below alpha qs i)}"
      using M_in by auto
  qed
  then have "card {i. i < length qs \<and> (i < ?M \<or> bh_below alpha qs i)} = Suc ?M"
    by simp
  moreover have "bh_count alpha qs
      = card {i. i < length qs \<and> (i < ?M \<or> bh_below alpha qs i)}"
    using hits_ne set_hits
    by (simp add: bh_count_def fdrcorrection_def Let_def count_true_card cong: conj_cong)
  ultimately show ?thesis using True by simp
qed

lemma bh_below_mono:
  assumes "alpha \<le> beta" and "bh_below alpha qs i"
  shows "bh_below beta qs i"
proof -
  have "0 \<le> ecdf_factor (length qs) i" by (simp add: ecdf_factor_def)
  then have "ecdf_factor (length qs) i * alpha \<le> ecdf_factor (length qs) i * beta"
    using assms(1) by (rule mult_left_mono [rotated])
  with assms(2) show ?thesis by (simp add: bh_below_def)
qed

lemma bh_count_mono:
  assumes "alpha \<le> beta"
  shows "bh_count alpha qs \<le> bh_count beta qs"
proof (cases "\<exists>i<length qs. bh_below alpha qs i")
  case False
  then have "bh_count alpha qs = 0" by (subst bh_count_eq) simp
  then show ?thesis by simp
next
  case True
  let ?A = "{i. i < length qs \<and> bh_below alpha qs i}"
  let ?B = "{i. i < length qs \<and> bh_below beta qs i}"
  have sub: "?A \<subseteq> ?B" using bh_below_mono [OF assms] by auto
  have "?A \<noteq> {}" using True by auto
  then have "Max ?A \<le> Max ?B" using sub by (intro Max_mono) auto
  moreover have "\<exists>i<length qs. bh_below beta qs i" using True bh_below_mono [OF assms] by auto
  ultimately show ?thesis using True by (simp add: bh_count_eq)
qed

lemma twostage_count_eq:
  "twostage_count alpha qs =
     (let m = length qs; r1 = bh_count alpha qs
      in if r1 = 0 \<or> r1 = m then r1
         else bh_count (alpha * real m / (real m - real r1)) qs)"
  by (simp add: twostage_count_def fdrcorrection_twostage_def bh_count_def Let_def)

lemma twostage_count_mono:
  assumes "0 \<le> alpha" and "alpha \<le> beta"
  shows "twostage_count alpha qs \<le> twostage_count beta qs"
proof -
  let ?m = "length qs"
  let ?a = "bh_count alpha qs" and ?b = "bh_count beta qs"
  have ab: "?a \<le> ?b" using assms(2) by (rule bh_count_mono)
  have bm: "?b \<le> ?m" by (rule bh_count_le)
  consider "?a = 0" | "?a = ?m" | "0 < ?a" "?a < ?m" "?b = ?m" | "0 < ?a" "?a < ?m" "?b < ?m"
    using ab bm by linarith
  then show ?thesis
  proof cases
    case 1
    then show ?thesis by (simp add: twostage_count_eq Let_def)
  next
    case 2
    with ab bm have "?b = ?m" by simp
    with 2 show ?thesis by (simp add: twostage_count_eq Let_def)
  next
    case 3
    then have "twostage_count beta qs = ?m" by (simp add: twostage_count_eq Let_def)
    moreover have "twostage_count alpha qs \<le> ?m"
      using bh_count_le by (simp add: twostage_count_eq Let_def)
    ultimately show ?thesis by simp
  next
    case 4
    have pos: "0 < real ?m - real ?b" using 4(3) by simp
    have le: "real ?m - real ?b \<le> real ?m - real ?a" using ab by simp
    have "alpha * real ?m / (real ?m - real ?a) \<le> beta * real ?m / (real ?m - real ?a)"
      using assms(2) 4(2) by (intro divide_right_mono mult_right_mono) simp_all
    also have "\<dots> \<le> beta * real ?m / (real ?m - real ?b)"
      using assms pos le by (intro divide_left_mono mult_nonneg_nonneg mult_pos_pos) simp_all
    finally have "bh_count (alpha * real ?m / (real ?m - real ?a)) qs
        \<le> bh_count (beta * real ?m / (real ?m - real ?b)) qs"
      by (rule bh_count_mono)
    then show ?thesis using 4 ab by (simp add: twostage_count_eq Let_def)
  qed
qed

lemma argsort_perm: "distinct (argsort ps) \<and> set (argsort ps) = {..<length ps}"
  by (auto simp: argsort_def)

lemma length_twostage: "length (fdrcorrection_twostage alpha qs) = length qs"
  by (simp add: fdrcorrection_twostage_def Let_def length_fdrcorrection)

lemma n_rejected_eq:
  "n_rejected alpha pvals = twostage_count alpha (map (\<lambda>i. pvals ! i) (argsort pvals))"
  unfolding n_rejected_def fdr_tsbh_reject_def Let_def twostage_count_def
  using argsort_perm [of pvals]
  by (intro count_true_put_at) (simp_all add: length_twostage)

text \<open>
  Claim C9: for every vector of p-values and all levels \<open>0 \<le> alpha \<le> beta\<close> the
  correction rejects at least as many voxels at \<open>beta\<close> as at \<open>alpha\<close>; decreasing the
  level never increases the number of rejections.
\<close>

theorem fdr_monotone_in_alpha:
  assumes "0 \<le> alpha" and "alpha \<le> beta"
  shows "n_rejected alpha pvals \<le> n_rejected beta pvals"
  using twostage_count_mono [OF assms] by (simp add: n_rejected_eq)

text \<open>
  Claim C9, witness: the p-values 0.5 and 0.04 at the levels 0.05 and 0.10: no
  rejection at 0.05, one at 0.10.
\<close>

theorem fdr_monotone_in_alpha_witness:
  "(0::real) \<le> 5 / 100 \<and> (5::real) / 100 \<le> 10 / 100 \<and>
   n_rejected (5 / 100) [1 / 2, 4 / 100] = 0 \<and>
   n_rejected (10 / 100) [1 / 2, 4 / 100] = 1 \<and>
   n_rejected (5 / 100) [1 / 2, 4 / 100] \<le> n_rejected (10 / 100) [1 / 2, 4 / 100]"
proof -
  have a: "n_rejected (5 / 100) [1 / 2, 4 / 100] = 0"
    by (simp add: n_rejected_def fdr_tsbh_reject_def argsort_def fdrcorrection_twostage_def
          fdrcorrection_def bh_below_def ecdf_factor_def count_true_def put_at_def Let_def)
  have b: "n_rejected (10 / 100) [1 / 2, 4 / 100] = 1"
    by (simp add: n_rejected_def fdr_tsbh_reject_def argsort_def fdrcorrection_twostage_def
          fdrcorrection_def bh_below_def ecdf_factor_def count_true_def put_at_def Let_def)
  show ?thesis
    using fdr_monotone_in_alpha [of "5 / 100" "10 / 100" "[1 / 2, 4 / 100]"] a b by simp
qed

end
